theory Spec2Isabelle
  imports Main
begin

section \<open>Status-code ranges\<close>

text \<open>
  \<^verbatim>\<open>main.go\<close> uses the type \<^verbatim>\<open>HTTPCodeRanges\<close>, its constructor
  \<^verbatim>\<open>NewHTTPCodeRanges\<close> and its method \<^verbatim>\<open>Contains\<close>. The file that declares
  them is not part of the sources at hand; only their tests are
  (\<^verbatim>\<open>TestHTTPCodeRanges_Contains\<close>, \<^verbatim>\<open>TestNewHTTPCodeRanges\<close>), where a value
  of the type is written \<^verbatim>\<open>HTTPCodeRanges{{200, 299}, {400, 499}}\<close>: a sequence
  of pairs of integers. Both operations are therefore modelled from the specification
  (section 4.1, RangeSet).
\<close>

type_synonym HTTPCodeRanges = "(int \<times> int) list"

datatype error =
  ParseError string           \<comment> \<open>a status block that is not a range; the block\<close>
| RegexError string string    \<comment> \<open>a pattern that does not compile; the pattern, the engine's message\<close>

text \<open>\<^verbatim>\<open>strings.Split(s, sep)\<close> for a one-byte separator: never an empty result.\<close>

fun split_on :: "char \<Rightarrow> string \<Rightarrow> string list" where
  "split_on sep [] = [[]]"
| "split_on sep (c # cs) =
     (if c = sep then [] # split_on sep cs
      else (case split_on sep cs of
              [] \<Rightarrow> [[c]]
            | b # bs \<Rightarrow> (c # b) # bs))"

definition is_space :: "char \<Rightarrow> bool" where
  "is_space c = (c \<in> set [CHR '' '', CHR 0x09, CHR 0x0A, CHR 0x0B, CHR 0x0C, CHR 0x0D])"

definition trim :: "string \<Rightarrow> string" where
  "trim s = rev (dropWhile is_space (rev (dropWhile is_space s)))"

definition is_digit :: "char \<Rightarrow> bool" where
  "is_digit c = (48 \<le> (of_char c :: nat) \<and> (of_char c :: nat) \<le> 57)"

definition digit_value :: "char \<Rightarrow> int" where
  "digit_value c = int (of_char c) - 48"

text \<open>A valid integer: a non-empty run of decimal digits, read in base ten.\<close>

definition parse_int :: "string \<Rightarrow> int option" where
  "parse_int s =
     (if s \<noteq> [] \<and> list_all is_digit s
      then Some (foldl (\<lambda>n c. 10 * n + digit_value c) 0 s)
      else None)"

text \<open>
  Modelled from the spec: the parsing of one block of a status specification, which
  \<^verbatim>\<open>NewHTTPCodeRanges\<close> (absent from the sources) performs. ``Each resulting
  block is trimmed and parsed as either a single integer or a low-high pair separated
  by -. Fails with ParseError when: a block is empty, a bound is not a valid integer, or
  (implementation choice) low > high''. The choice the specification leaves open is the
  parameter \<open>strict\<close>: when it is set, an inverted pair is rejected.
\<close>

definition parse_block :: "bool \<Rightarrow> string \<Rightarrow> error + (int \<times> int)" where
  "parse_block strict raw =
     (let block = trim raw in
      if block = [] then Inl (ParseError block)
      else if CHR ''-'' \<notin> set block then
        (case parse_int block of
           None \<Rightarrow> Inl (ParseError block)
         | Some n \<Rightarrow> Inr (n, n))
      else
        (case (parse_int (takeWhile (\<lambda>c. c \<noteq> CHR ''-'') block),
               parse_int (tl (dropWhile (\<lambda>c. c \<noteq> CHR ''-'') block))) of
           (Some low, Some high) \<Rightarrow>
             if strict \<and> high < low then Inl (ParseError block) else Inr (low, high)
         | _ \<Rightarrow> Inl (ParseError block)))"

fun parse_blocks :: "bool \<Rightarrow> string list \<Rightarrow> error + HTTPCodeRanges" where
  "parse_blocks strict [] = Inr []"
| "parse_blocks strict (b # bs) =
     (case parse_block strict b of
        Inl e \<Rightarrow> Inl e
      | Inr r \<Rightarrow>
          (case parse_blocks strict bs of
             Inl e \<Rightarrow> Inl e
           | Inr rs \<Rightarrow> Inr (r # rs)))"

text \<open>
  Modelled from the spec: \<^verbatim>\<open>NewHTTPCodeRanges(strBlocks []string)\<close>, absent from the
  sources. ``Each input string is split on `,` ''; ``multiple input strings are
  concatenated into one ordered range list''; ``ranges are stored in the order
  encountered (not merged or sorted)''.
\<close>

definition NewHTTPCodeRanges :: "bool \<Rightarrow> string list \<Rightarrow> error + HTTPCodeRanges" where
  "NewHTTPCodeRanges strict strBlocks =
     parse_blocks strict (concat (map (split_on CHR '','') strBlocks))"

text \<open>
  Modelled from the spec: the method \<^verbatim>\<open>Contains\<close>, absent from the sources. ``True
  iff code lies within any stored interval's inclusive bounds; scans in insertion
  order; returns on first hit''.
\<close>

fun Contains :: "HTTPCodeRanges \<Rightarrow> int \<Rightarrow> bool" where
  "Contains [] statusCode = False"
| "Contains (block # blocks) statusCode =
     (if fst block \<le> statusCode \<and> statusCode \<le> snd block then True
      else Contains blocks statusCode)"

section \<open>The regular-expression engine\<close>

text \<open>
  Patterns are compiled by \<^verbatim>\<open>regexp.Compile\<close> and applied by
  \<^verbatim>\<open>(*Regexp).ReplaceAll(src, repl)\<close> of Go's standard library. The engine is
  not code of this program: the model takes both functions as parameters, over an
  arbitrary type \<open>'rx\<close> of compiled expressions, and every general statement holds for
  all engines. \<open>Compile\<close> returns the engine's message on failure.
\<close>

type_synonym 'rx Compile = "string \<Rightarrow> string + 'rx"
type_synonym 'rx ReplaceAll = "'rx \<Rightarrow> string \<Rightarrow> string \<Rightarrow> string"

text \<open>
  For the examples of the test suite, whose patterns are the plain words
  \<^verbatim>\<open>foo\<close> and \<^verbatim>\<open>bar\<close>: what \<^verbatim>\<open>ReplaceAll\<close> does for a pattern that is a
  non-empty literal and a replacement without \<^verbatim>\<open>$\<close>. The source is scanned from the
  left; where the literal starts, the replacement is emitted and the scan resumes after
  the match (matches do not overlap); any other byte is copied. The remaining bytes of
  a match are skipped by the counter \<open>skip\<close>.
\<close>

fun literal_scan :: "string \<Rightarrow> string \<Rightarrow> nat \<Rightarrow> string \<Rightarrow> string" where
  "literal_scan pat repl skip [] = []"
| "literal_scan pat repl skip (c # cs) =
     (if 0 < skip then literal_scan pat repl (skip - 1) cs
      else if pat \<noteq> [] \<and> take (length pat) (c # cs) = pat
      then repl @ literal_scan pat repl (length pat - 1) cs
      else c # literal_scan pat repl 0 cs)"

definition literal_ReplaceAll :: "string ReplaceAll" where
  "literal_ReplaceAll pat src repl = literal_scan pat repl 0 src"

section \<open>Configuration and construction\<close>

record 'rx parsedRewrite =
  regex :: 'rx
  replacement :: string

text \<open>The field \<^verbatim>\<open>rewrites\<close> is \<open>rewriteRules\<close> here, where the former is a keyword.\<close>

record 'rx parsedResponse =
  rewriteRules :: "'rx parsedRewrite list"
  status :: HTTPCodeRanges

record Rewrite =
  Regex :: string
  Replacement :: string

record Response =
  Rewrites :: "Rewrite list"
  Status :: string

record Config =
  Responses :: "Response list"

definition CreateConfig :: Config where
  "CreateConfig = \<lparr>Responses = []\<rparr>"

text \<open>
  The middleware. \<open>nextHandler\<close> is the field \<^verbatim>\<open>next\<close> (a keyword here); its type
  \<open>'h\<close> is the downstream handler's. The logger is left out: it only prints.
\<close>

record ('rx, 'h) responsebodyrewrite =
  nextHandler :: 'h
  name :: string
  responses :: "'rx parsedResponse list"
  lastModified :: bool

text \<open>The inner loop of \<^verbatim>\<open>New\<close>: the rewrites of one response, compiled in order.\<close>

fun parse_rewrites :: "'rx Compile \<Rightarrow> Rewrite list \<Rightarrow> error + 'rx parsedRewrite list" where
  "parse_rewrites compile [] = Inr []"
| "parse_rewrites compile (rewriteConfig # rest) =
     (case compile (Regex rewriteConfig) of
        Inl err \<Rightarrow> Inl (RegexError (Regex rewriteConfig) err)
      | Inr rx \<Rightarrow>
          (case parse_rewrites compile rest of
             Inl e \<Rightarrow> Inl e
           | Inr rs \<Rightarrow> Inr (\<lparr>regex = rx, replacement = Replacement rewriteConfig\<rparr> # rs)))"

text \<open>
  The outer loop of \<^verbatim>\<open>New\<close>: for each response, first its status
  (\<^verbatim>\<open>NewHTTPCodeRanges([]string{response.Status})\<close>), then its rewrites; the first
  failure ends the loop.
\<close>

fun parse_responses ::
  "bool \<Rightarrow> 'rx Compile \<Rightarrow> Response list \<Rightarrow> error + 'rx parsedResponse list" where
  "parse_responses strict compile [] = Inr []"
| "parse_responses strict compile (response # rest) =
     (case NewHTTPCodeRanges strict [Status response] of
        Inl err \<Rightarrow> Inl err
      | Inr httpCodeRanges \<Rightarrow>
          (case parse_rewrites compile (Rewrites response) of
             Inl err \<Rightarrow> Inl err
           | Inr rws \<Rightarrow>
               (case parse_responses strict compile rest of
                  Inl err \<Rightarrow> Inl err
                | Inr ps \<Rightarrow> Inr (\<lparr>rewriteRules = rws, status = httpCodeRanges\<rparr> # ps))))"

text \<open>
  \<^verbatim>\<open>New\<close> returns a pair \<^verbatim>\<open>(http.Handler, error)\<close>, either of which may be
  \<^verbatim>\<open>nil\<close>: the model returns a pair of options, so that what the pair holds is a
  property of the code and not of the type.
\<close>

definition New ::
  "bool \<Rightarrow> 'rx Compile \<Rightarrow> 'h \<Rightarrow> Config \<Rightarrow> string
     \<Rightarrow> ('rx, 'h) responsebodyrewrite option \<times> error option" where
  "New strict compile nxt config nm =
     (case parse_responses strict compile (Responses config) of
        Inl err \<Rightarrow> (None, Some err)
      | Inr parsedResponses \<Rightarrow>
          (Some \<lparr>nextHandler = nxt, name = nm, responses = parsedResponses,
                 lastModified = True\<rparr>, None))"

section \<open>The real response writer\<close>

text \<open>
  A header collection (\<^verbatim>\<open>http.Header\<close>, a Go map from names to lists of values) is
  a map; a \<^verbatim>\<open>nil\<close> map reads as the empty one. \<open>Get\<close> and \<open>Del\<close> are the library's
  methods for a name in canonical form, which \<^verbatim>\<open>Content-Encoding\<close> and
  \<^verbatim>\<open>Content-Length\<close> are.
\<close>

type_synonym header = "string \<rightharpoonup> string list"

definition Get :: "header \<Rightarrow> string \<Rightarrow> string" where
  "Get h key = (case h key of None \<Rightarrow> [] | Some [] \<Rightarrow> [] | Some (v # vs) \<Rightarrow> v)"

definition Del :: "string \<Rightarrow> header \<Rightarrow> header" where
  "Del key h = h(key := None)"

text \<open>
  The real writer (the \<^verbatim>\<open>http.ResponseWriter\<close> handed to \<^verbatim>\<open>ServeHTTP\<close>) is
  an interface value whose implementation belongs to the host. It is modelled by what
  the program does to it: its header collection, which the program reads and assigns
  through \<^verbatim>\<open>Header()\<close>, and the log of the calls it receives. A status write is
  logged with the header collection as it stands at the call, which is what a writer
  sends with that status. Every call is taken to return: a writer that panics (as the
  library's does on a status below 100 or above 999) ends the request.
\<close>

datatype sink_event =
  StatusWritten int header
| BodyWritten string
| Flushed
| Hijacked

record real_sink =
  sink_header :: header
  sink_log :: "sink_event list"
  is_flusher :: bool
  is_hijacker :: bool

definition sink_WriteHeader :: "int \<Rightarrow> real_sink \<Rightarrow> real_sink" where
  "sink_WriteHeader statusCode s =
     s\<lparr>sink_log := sink_log s @ [StatusWritten statusCode (sink_header s)]\<rparr>"

definition sink_Write :: "string \<Rightarrow> real_sink \<Rightarrow> real_sink" where
  "sink_Write p s = s\<lparr>sink_log := sink_log s @ [BodyWritten p]\<rparr>"

section \<open>The wrapping response writer\<close>

text \<open>
  The struct \<^verbatim>\<open>responseWriter\<close>. Its field \<^verbatim>\<open>lastModified\<close> is
  \<open>w_lastModified\<close> here, the middleware having a field of the same name; the embedded
  \<^verbatim>\<open>http.ResponseWriter\<close> is the real writer.
\<close>

record responseWriter =
  buffer :: string
  w_lastModified :: bool
  headerMap :: header
  headersSent :: bool
  code :: int
  ResponseWriter :: real_sink

text \<open>\<^verbatim>\<open>Header()\<close>: the real writer's collection once the headers are sent, the private one before.\<close>

definition Header :: "responseWriter \<Rightarrow> header" where
  "Header r = (if headersSent r then sink_header (ResponseWriter r) else headerMap r)"

text \<open>
  \<^verbatim>\<open>Header()\<close> returns the map itself, which the caller may then change: \<open>f\<close> is the
  change, made to the collection that \<^verbatim>\<open>Header()\<close> returns at that moment.
\<close>

definition Header_update :: "(header \<Rightarrow> header) \<Rightarrow> responseWriter \<Rightarrow> responseWriter" where
  "Header_update f r =
     (if headersSent r
      then r\<lparr>ResponseWriter := (ResponseWriter r)\<lparr>sink_header := f (sink_header (ResponseWriter r))\<rparr>\<rparr>
      else r\<lparr>headerMap := f (headerMap r)\<rparr>)"

text \<open>
  The loop \<^verbatim>\<open>for k, v := range r.Header() { r.ResponseWriter.Header()[k] = v }\<close>:
  every key of the first collection is assigned in the second, so the values are
  replaced and not appended. The keys of a map are distinct: the order of the loop does
  not matter.
\<close>

definition copy_headers :: "header \<Rightarrow> real_sink \<Rightarrow> real_sink" where
  "copy_headers h s = s\<lparr>sink_header := sink_header s ++ h\<rparr>"

definition WriteHeader :: "int \<Rightarrow> responseWriter \<Rightarrow> responseWriter" where
  "WriteHeader statusCode r =
     (if headersSent r then r
      else if statusCode \<ge> 100 \<and> statusCode \<le> 199 then
        r\<lparr>ResponseWriter :=
            sink_WriteHeader statusCode (copy_headers (Header r) (ResponseWriter r))\<rparr>
      else
        (let r1 = r\<lparr>code := statusCode\<rparr>;
             s1 = copy_headers (Header r1) (ResponseWriter r1);
             s2 = s1\<lparr>sink_header := Del ''Content-Length'' (sink_header s1)\<rparr>;
             s3 = sink_WriteHeader (code r1) s2
         in r1\<lparr>ResponseWriter := s3, headersSent := True\<rparr>))"

text \<open>\<^verbatim>\<open>Write\<close>: \<^verbatim>\<open>bytes.Buffer.Write\<close> appends and reports no error.\<close>

definition Write :: "string \<Rightarrow> responseWriter \<Rightarrow> responseWriter" where
  "Write p r =
     (let r1 = (if \<not> headersSent r then WriteHeader 200 r else r)
      in r1\<lparr>buffer := buffer r1 @ p\<rparr>)"

definition Flush :: "responseWriter \<Rightarrow> responseWriter" where
  "Flush r =
     (if is_flusher (ResponseWriter r)
      then r\<lparr>ResponseWriter :=
               (ResponseWriter r)\<lparr>sink_log := sink_log (ResponseWriter r) @ [Flushed]\<rparr>\<rparr>
      else r)"

text \<open>\<^verbatim>\<open>Hijack\<close>: the third component of the result, and the writer afterwards.\<close>

definition Hijack :: "responseWriter \<Rightarrow> string option \<times> responseWriter" where
  "Hijack r =
     (if \<not> is_hijacker (ResponseWriter r) then (Some ''is not a http.Hijacker'', r)
      else (None, r\<lparr>ResponseWriter :=
               (ResponseWriter r)\<lparr>sink_log := sink_log (ResponseWriter r) @ [Hijacked]\<rparr>\<rparr>))"

section \<open>The downstream handler and the request\<close>

text \<open>
  The downstream handler is an opaque callable: all it can do to the writer it is
  handed is call its methods. One run of it is the sequence of those calls; a statement
  about every sequence is a statement about every handler. What the handler does to the
  map that \<^verbatim>\<open>Header()\<close> returns is an assignment or a deletion at a key
  (\<^verbatim>\<open>Set\<close>, \<^verbatim>\<open>Add\<close> and \<^verbatim>\<open>Del\<close> are such, at the canonical form of the
  name); the lists of values are not changed in place.
\<close>

datatype call =
  SetHeader string "string list"   \<comment> \<open>\<^verbatim>\<open>rw.Header()[k] = vs\<close>\<close>
| DelHeader string                 \<comment> \<open>\<^verbatim>\<open>delete(rw.Header(), k)\<close>\<close>
| CallWriteHeader int
| CallWrite string
| CallFlush
| CallHijack

fun do_call :: "call \<Rightarrow> responseWriter \<Rightarrow> responseWriter" where
  "do_call (SetHeader k vs) r = Header_update (\<lambda>h. h(k \<mapsto> vs)) r"
| "do_call (DelHeader k) r = Header_update (\<lambda>h. h(k := None)) r"
| "do_call (CallWriteHeader statusCode) r = WriteHeader statusCode r"
| "do_call (CallWrite p) r = Write p r"
| "do_call CallFlush r = Flush r"
| "do_call CallHijack r = snd (Hijack r)"

fun handle :: "call list \<Rightarrow> responseWriter \<Rightarrow> responseWriter" where
  "handle [] r = r"
| "handle (c # cs) r = handle cs (do_call c r)"

text \<open>The loop over the rewrites of the matching response (\<^verbatim>\<open>main.go\<close>, lines 136 to 138).\<close>

fun apply_rewrites :: "'rx ReplaceAll \<Rightarrow> 'rx parsedRewrite list \<Rightarrow> string \<Rightarrow> string" where
  "apply_rewrites ReplaceAll [] bodyBytes = bodyBytes"
| "apply_rewrites ReplaceAll (rewrite # rest) bodyBytes =
     apply_rewrites ReplaceAll rest (ReplaceAll (regex rewrite) bodyBytes (replacement rewrite))"

text \<open>
  The loop over the responses (lines 132 to 140): \<^verbatim>\<open>continue\<close> while the status
  does not contain the code, \<^verbatim>\<open>break\<close> after the first that does.
\<close>

fun rewrite_body ::
  "'rx ReplaceAll \<Rightarrow> 'rx parsedResponse list \<Rightarrow> int \<Rightarrow> string \<Rightarrow> string" where
  "rewrite_body ReplaceAll [] statusCode bodyBytes = bodyBytes"
| "rewrite_body ReplaceAll (response # rest) statusCode bodyBytes =
     (if \<not> Contains (status response) statusCode
      then rewrite_body ReplaceAll rest statusCode bodyBytes
      else apply_rewrites ReplaceAll (rewriteRules response) bodyBytes)"

text \<open>The writer that \<^verbatim>\<open>ServeHTTP\<close> creates for a request.\<close>

definition wrap :: "('rx, 'h) responsebodyrewrite \<Rightarrow> real_sink \<Rightarrow> responseWriter" where
  "wrap r rw =
     \<lparr>buffer = [], w_lastModified = lastModified r, headerMap = Map.empty,
      headersSent = False, code = 200, ResponseWriter = rw\<rparr>"

text \<open>
  \<^verbatim>\<open>ServeHTTP\<close>. The handler \<^verbatim>\<open>r.next\<close> maps the request to the calls it makes
  (a handler whose calls depend on what it reads back from the writer makes, in any one
  run, one such sequence, and the statements below hold for all of them);
  \<open>rw\<close> and the writer inside \<open>wrappedWriter\<close> are one object, so the final write
  goes to the real writer as the handler left it. A failure of that write is only
  logged.
\<close>

definition ServeHTTP ::
  "'rx ReplaceAll \<Rightarrow> ('rx, 'req \<Rightarrow> call list) responsebodyrewrite \<Rightarrow> real_sink \<Rightarrow> 'req
     \<Rightarrow> real_sink" where
  "ServeHTTP ReplaceAll r rw req =
     (let wrappedWriter = handle (nextHandler r req) (wrap r rw);
          bodyBytes = buffer wrappedWriter;
          contentEncoding = Get (Header wrappedWriter) ''Content-Encoding''
      in if contentEncoding \<noteq> [] \<and> contentEncoding \<noteq> ''identity''
         then sink_Write bodyBytes (ResponseWriter wrappedWriter)
         else sink_Write (rewrite_body ReplaceAll (responses r) (code wrappedWriter) bodyBytes)
                (ResponseWriter wrappedWriter))"

section \<open>Notions used by the statements\<close>

text \<open>The status writes of a log that are not informational, with the headers each was written with.\<close>

fun final_statuses :: "sink_event list \<Rightarrow> (int \<times> header) list" where
  "final_statuses [] = []"
| "final_statuses (StatusWritten c h # es) =
     (if 100 \<le> c \<and> c \<le> 199 then final_statuses es else (c, h) # final_statuses es)"
| "final_statuses (e # es) = final_statuses es"

text \<open>What the real writer \<open>rw'\<close> has received since it was \<open>rw\<close>.\<close>

definition events_since :: "real_sink \<Rightarrow> real_sink \<Rightarrow> sink_event list" where
  "events_since rw rw' = drop (length (sink_log rw)) (sink_log rw')"

text \<open>The bytes a run of the handler passes to \<^verbatim>\<open>Write\<close>, in order.\<close>

fun written :: "call list \<Rightarrow> string" where
  "written [] = []"
| "written (CallWrite p # cs) = p @ written cs"
| "written (c # cs) = written cs"

fun is_status_call :: "call \<Rightarrow> bool" where
  "is_status_call (CallWriteHeader c) = True"
| "is_status_call _ = False"

text \<open>
  The rule selection in the specification's words: ``the first whose range contains the
  observed status code'', and its rules ``applied sequentially, each seeing the output of
  the previous one''.
\<close>

definition first_match :: "'rx parsedResponse list \<Rightarrow> int \<Rightarrow> 'rx parsedResponse option" where
  "first_match rs statusCode = find (\<lambda>p. Contains (status p) statusCode) rs"

definition chain :: "'rx ReplaceAll \<Rightarrow> 'rx parsedRewrite list \<Rightarrow> string \<Rightarrow> string" where
  "chain ReplaceAll rules body =
     foldl (\<lambda>b rule. ReplaceAll (regex rule) b (replacement rule)) body rules"

definition rewritten ::
  "'rx ReplaceAll \<Rightarrow> 'rx parsedResponse list \<Rightarrow> int \<Rightarrow> string \<Rightarrow> string" where
  "rewritten ReplaceAll rs statusCode body =
     (case first_match rs statusCode of
        None \<Rightarrow> body
      | Some p \<Rightarrow> chain ReplaceAll (rewriteRules p) body)"

text \<open>A configuration is well-formed when every status parses and every pattern compiles.\<close>

definition response_ok :: "bool \<Rightarrow> 'rx Compile \<Rightarrow> Response \<Rightarrow> bool" where
  "response_ok strict compile response \<longleftrightarrow>
     \<not> isl (NewHTTPCodeRanges strict [Status response]) \<and>
     list_all (\<lambda>rewriteConfig. \<not> isl (compile (Regex rewriteConfig))) (Rewrites response)"

definition parsed_from ::
  "bool \<Rightarrow> 'rx Compile \<Rightarrow> Response \<Rightarrow> 'rx parsedResponse \<Rightarrow> bool" where
  "parsed_from strict compile response p \<longleftrightarrow>
     NewHTTPCodeRanges strict [Status response] = Inr (status p) \<and>
     list_all2 (\<lambda>rewriteConfig rule.
         compile (Regex rewriteConfig) = Inr (regex rule) \<and>
         replacement rule = Replacement rewriteConfig)
       (Rewrites response) (rewriteRules p)"

text \<open>The body bytes a log holds, in order.\<close>

fun bodies :: "sink_event list \<Rightarrow> string" where
  "bodies [] = []"
| "bodies (BodyWritten p # es) = p @ bodies es"
| "bodies (e # es) = bodies es"

text \<open>
  What a run of calls may do to the real writer, from the writer \<open>r\<close> to the writer
  \<open>r'\<close> with the events \<open>new\<close> in between: once the headers are sent, no further
  final status and no change of the code; before, at most one final status, written
  with the code the writer then holds and without \<^verbatim>\<open>Content-Length\<close>.
\<close>

definition run_ok :: "responseWriter \<Rightarrow> responseWriter \<Rightarrow> sink_event list \<Rightarrow> bool" where
  "run_ok r r' new \<longleftrightarrow>
     sink_log (ResponseWriter r') = sink_log (ResponseWriter r) @ new \<and>
     (if headersSent r then headersSent r' \<and> code r' = code r \<and> final_statuses new = []
      else if headersSent r'
        then (\<exists>h. final_statuses new = [(code r', h)] \<and> h ''Content-Length'' = None)
        else final_statuses new = [] \<and> code r' = code r)"

section \<open>The variant of \<^verbatim>\<open>WriteHeader\<close> that deletes on a match\<close>

text \<open>
  \<^verbatim>\<open>src/unnamed/part_001\<close> is a variant of \<^verbatim>\<open>main.go\<close> whose writer carries the
  parsed responses (here the parameter \<open>rs\<close>). Its \<^verbatim>\<open>WriteHeader\<close> handles an
  informational code as above; for any other code it sets the flag
  \<^verbatim>\<open>bodyRewrited\<close> in a loop over all responses, deletes \<^verbatim>\<open>Content-Length\<close>
  from the real writer's headers when the flag is set, and writes the status. It does
  not copy the private headers at that point.
\<close>

fun bodyRewrited :: "'rx parsedResponse list \<Rightarrow> int \<Rightarrow> bool \<Rightarrow> bool" where
  "bodyRewrited [] statusCode flag = flag"
| "bodyRewrited (response # rest) statusCode flag =
     (if \<not> Contains (status response) statusCode then bodyRewrited rest statusCode flag
      else bodyRewrited rest statusCode True)"

definition WriteHeader_part_001 ::
  "'rx parsedResponse list \<Rightarrow> int \<Rightarrow> responseWriter \<Rightarrow> responseWriter" where
  "WriteHeader_part_001 rs statusCode r =
     (if headersSent r then r
      else if statusCode \<ge> 100 \<and> statusCode \<le> 199 then
        r\<lparr>ResponseWriter :=
            sink_WriteHeader statusCode (copy_headers (Header r) (ResponseWriter r))\<rparr>
      else
        (let r1 = r\<lparr>code := statusCode\<rparr>;
             s1 = ResponseWriter r1;
             s2 = (if bodyRewrited rs statusCode False
                   then s1\<lparr>sink_header := Del ''Content-Length'' (sink_header s1)\<rparr>
                   else s1);
             s3 = sink_WriteHeader (code r1) s2
         in r1\<lparr>ResponseWriter := s3, headersSent := True\<rparr>))"

section \<open>The cases of the test suite\<close>

text \<open>
  The handler of \<^verbatim>\<open>TestServeHTTP\<close>: three headers, the status, then the body in one
  write. \<^verbatim>\<open>Header().Set(k, v)\<close> assigns the one-element list.
\<close>

definition test_next :: "string \<Rightarrow> int \<Rightarrow> string \<Rightarrow> string \<Rightarrow> unit \<Rightarrow> call list" where
  "test_next contentEncoding httpStatus contentLength resBody = (\<lambda>req.
     [SetHeader ''Content-Encoding'' [contentEncoding],
      SetHeader ''Last-Modified'' [''Thu, 02 Jun 2016 06:01:08 GMT''],
      SetHeader ''Content-Length'' [contentLength],
      CallWriteHeader httpStatus,
      CallWrite resBody])"

text \<open>A real writer that has received nothing yet, and is a flusher but no hijacker (as the test recorder).\<close>

definition recorder :: real_sink where
  "recorder = \<lparr>sink_header = Map.empty, sink_log = [], is_flusher = True, is_hijacker = False\<rparr>"

text \<open>
  The parsed configurations of the tests: status \<^verbatim>\<open>200-299\<close> with \<^verbatim>\<open>foo\<close> to
  \<^verbatim>\<open>bar\<close>, and the same followed by \<^verbatim>\<open>bar\<close> to \<^verbatim>\<open>foo\<close>. The compiled form of
  a literal pattern is the literal.
\<close>

definition foo_bar :: "string parsedResponse" where
  "foo_bar = \<lparr>rewriteRules = [\<lparr>regex = ''foo'', replacement = ''bar''\<rparr>], status = [(200, 299)]\<rparr>"

definition foo_bar_foo :: "string parsedResponse" where
  "foo_bar_foo =
     \<lparr>rewriteRules = [\<lparr>regex = ''foo'', replacement = ''bar''\<rparr>,
                      \<lparr>regex = ''bar'', replacement = ''foo''\<rparr>],
      status = [(200, 299)]\<rparr>"

definition test_middleware ::
  "string parsedResponse list \<Rightarrow> (unit \<Rightarrow> call list) \<Rightarrow> (string, unit \<Rightarrow> call list) responsebodyrewrite" where
  "test_middleware rs nxt =
     \<lparr>nextHandler = nxt, name = ''rewriteBody'', responses = rs, lastModified = True\<rparr>"

text \<open>
  An engine for the cases of \<^verbatim>\<open>TestNew\<close>, whose patterns are \<^verbatim>\<open>foo\<close>,
  \<^verbatim>\<open>bar\<close> and \<^verbatim>\<open>*\<close>: the lone star is refused, as the library refuses a
  repetition without an operand, and a word compiles to itself.
\<close>

definition test_Compile :: "string Compile" where
  "test_Compile pattern =
     (if pattern = ''*'' then Inl ''missing argument to repetition operator'' else Inr pattern)"

text \<open>
  A handler that sets \<^verbatim>\<open>Content-Length\<close>, writes the informational status 103 and
  returns.
\<close>

definition early_hints_only :: "unit \<Rightarrow> call list" where
  "early_hints_only = (\<lambda>req. [SetHeader ''Content-Length'' [''5''], CallWriteHeader 103])"

text \<open>The configurations of \<^verbatim>\<open>TestNew\<close> used below.\<close>

definition config_ok :: Config where
  "config_ok =
     \<lparr>Responses = [\<lparr>Rewrites = [\<lparr>Regex = ''foo'', Replacement = ''bar''\<rparr>,
                                 \<lparr>Regex = ''bar'', Replacement = ''foo''\<rparr>],
                     Status = ''200-299,400''\<rparr>]\<rparr>"

definition config_bad_regex :: Config where
  "config_bad_regex =
     \<lparr>Responses = [\<lparr>Rewrites = [\<lparr>Regex = ''*'', Replacement = ''bar''\<rparr>],
                     Status = ''200-299''\<rparr>]\<rparr>"

definition config_bad_status :: Config where
  "config_bad_status =
     \<lparr>Responses = [\<lparr>Rewrites = [\<lparr>Regex = ''*'', Replacement = ''bar''\<rparr>],
                     Status = ''200,299foo''\<rparr>]\<rparr>"

text \<open>The test handler with an empty, a compressed and an identity encoding, and with status 404.\<close>

definition plain_next :: "unit \<Rightarrow> call list" where
  "plain_next = test_next [] 200 ''18'' ''foo is the new bar''"

definition gzip_next :: "unit \<Rightarrow> call list" where
  "gzip_next = test_next ''gzip'' 200 ''18'' ''foo is the new bar''"

definition identity_next :: "unit \<Rightarrow> call list" where
  "identity_next = test_next ''identity'' 200 ''18'' ''foo is the new bar''"

definition not_found_next :: "unit \<Rightarrow> call list" where
  "not_found_next = test_next [] 404 ''18'' ''foo is the new bar''"

text \<open>A handler that writes a body without writing a status, and sets no encoding.\<close>

definition write_only :: "unit \<Rightarrow> call list" where
  "write_only = (\<lambda>req. [SetHeader ''Content-Length'' [''18''], CallWrite ''foo is the new bar''])"

text \<open>A writer whose handler has set two headers and written nothing yet.\<close>

definition pending :: responseWriter where
  "pending = handle [SetHeader ''Last-Modified'' [''Thu, 02 Jun 2016 06:01:08 GMT''],
                     SetHeader ''Content-Length'' [''18'']]
               (wrap (test_middleware [foo_bar] plain_next) recorder)"

text \<open>The status writes of a log, each with the value it was written with for one header.\<close>

fun status_header :: "string \<Rightarrow> sink_event list \<Rightarrow> (int \<times> string list option) list" where
  "status_header k [] = []"
| "status_header k (StatusWritten c h # es) = (c, h k) # status_header k es"
| "status_header k (e # es) = status_header k es"

text \<open>
  A handler that commits status 200 and then assigns \<^verbatim>\<open>Content-Length\<close> again
  through \<^verbatim>\<open>Header()\<close>, before it writes its body.
\<close>

definition late_length :: "unit \<Rightarrow> call list" where
  "late_length = (\<lambda>req.
     [SetHeader ''Content-Length'' [''18''], CallWriteHeader 200,
      SetHeader ''Content-Length'' [''3''], CallWrite ''foo''])"

section \<open>Status-code ranges: properties\<close>

lemma Contains_iff: "Contains rs c \<longleftrightarrow> (\<exists>block\<in>set rs. fst block \<le> c \<and> c \<le> snd block)"
  by (induction rs) auto

lemmas range_parsing =
  NewHTTPCodeRanges_def parse_block_def trim_def is_space_def parse_int_def is_digit_def
  digit_value_def

lemma ranges_200_400: "NewHTTPCodeRanges strict [''200-299,400-499''] = Inr [(200, 299), (400, 499)]"
  by (simp add: range_parsing)

lemma ranges_200_400_split:
  "NewHTTPCodeRanges strict [''200-299'', ''400-499''] = Inr [(200, 299), (400, 499)]"
  by (simp add: range_parsing)

text \<open>
  C5. The ranges built from \<^verbatim>\<open>200-299,400-499\<close>, given as one string or as two, are
  the intervals 200 to 299 and 400 to 499; they contain a code exactly when it lies in
  one of the two, so they contain 200, 299, 400 and 499 and not 199, 300 and 500. In
  general, \<open>Contains\<close> holds exactly when some stored interval has the code within its
  inclusive bounds.
\<close>

theorem Contains_200_299_400_499:
  "NewHTTPCodeRanges strict [''200-299,400-499''] = Inr [(200, 299), (400, 499)] \<and>
   NewHTTPCodeRanges strict [''200-299'', ''400-499''] = Inr [(200, 299), (400, 499)] \<and>
   (Contains [(200, 299), (400, 499)] c \<longleftrightarrow> (200 \<le> c \<and> c \<le> 299) \<or> (400 \<le> c \<and> c \<le> 499)) \<and>
   Contains [(200, 299), (400, 499)] 200 \<and> Contains [(200, 299), (400, 499)] 299 \<and>
   Contains [(200, 299), (400, 499)] 400 \<and> Contains [(200, 299), (400, 499)] 499 \<and>
   \<not> Contains [(200, 299), (400, 499)] 199 \<and> \<not> Contains [(200, 299), (400, 499)] 300 \<and>
   \<not> Contains [(200, 299), (400, 499)] 500 \<and>
   (Contains rs statusCode \<longleftrightarrow>
      (\<exists>block\<in>set rs. fst block \<le> statusCode \<and> statusCode \<le> snd block))"
  using ranges_200_400 [of strict] ranges_200_400_split [of strict] Contains_iff [of rs statusCode]
  by simp

section \<open>Construction: properties\<close>

lemma parse_rewrites_Inr:
  "parse_rewrites compile cfgs = Inr rules \<longleftrightarrow>
     list_all2 (\<lambda>rewriteConfig rule.
         compile (Regex rewriteConfig) = Inr (regex rule) \<and>
         replacement rule = Replacement rewriteConfig) cfgs rules"
proof (induction cfgs arbitrary: rules)
  case Nil
  show ?case by auto
next
  case (Cons a cfgs)
  show ?case
  proof (cases rules)
    case Nil
    then show ?thesis by (auto split: sum.splits)
  next
    case (Cons rule rest)
    then show ?thesis using Cons.IH [of rest]
      by (auto split: sum.splits)
  qed
qed

lemma parse_rewrites_Inl:
  "(\<exists>err. parse_rewrites compile cfgs = Inl err) \<longleftrightarrow>
     \<not> list_all (\<lambda>rewriteConfig. \<not> isl (compile (Regex rewriteConfig))) cfgs"
  by (induction cfgs) (auto split: sum.splits simp: isl_def)

lemma parse_responses_Inr:
  "parse_responses strict compile cfgs = Inr ps \<longleftrightarrow>
     list_all2 (parsed_from strict compile) cfgs ps"
proof (induction cfgs arbitrary: ps)
  case Nil
  show ?case by auto
next
  case (Cons a cfgs)
  show ?case
  proof (cases ps)
    case Nil
    then show ?thesis by (auto split: sum.splits)
  next
    case (Cons p rest)
    then show ?thesis using Cons.IH [of rest]
      by (auto split: sum.splits simp: parsed_from_def parse_rewrites_Inr [symmetric])
  qed
qed

lemma parse_responses_Inl:
  "(\<exists>err. parse_responses strict compile cfgs = Inl err) \<longleftrightarrow>
     \<not> list_all (response_ok strict compile) cfgs"
proof (induction cfgs)
  case Nil
  show ?case by simp
next
  case (Cons a cfgs)
  show ?case using Cons.IH parse_rewrites_Inl [of compile "Rewrites a"]
    by (auto split: sum.splits simp: response_ok_def isl_def)
qed

lemma New_ok:
  assumes "list_all (response_ok strict compile) (Responses config)"
  shows "\<exists>mw. New strict compile nxt config nm = (Some mw, None) \<and>
           list_all2 (parsed_from strict compile) (Responses config) (responses mw) \<and>
           nextHandler mw = nxt \<and> name mw = nm \<and> lastModified mw"
proof -
  have "\<not> (\<exists>err. parse_responses strict compile (Responses config) = Inl err)"
    using assms parse_responses_Inl by blast
  then obtain ps where ps: "parse_responses strict compile (Responses config) = Inr ps"
    by (cases "parse_responses strict compile (Responses config)") auto
  then have "list_all2 (parsed_from strict compile) (Responses config) ps"
    by (simp add: parse_responses_Inr)
  then show ?thesis using ps by (simp add: New_def)
qed

lemma New_failed:
  assumes "\<not> list_all (response_ok strict compile) (Responses config)"
  shows "\<exists>err. New strict compile nxt config nm = (None, Some err)"
proof -
  obtain err where "parse_responses strict compile (Responses config) = Inl err"
    using assms parse_responses_Inl by blast
  then show ?thesis by (simp add: New_def)
qed

lemma bad_statuses:
  "isl (NewHTTPCodeRanges strict [''200-abc''])"
  "isl (NewHTTPCodeRanges strict [''abc-200''])"
  "isl (NewHTTPCodeRanges strict [''200,299foo''])"
  by (simp_all add: range_parsing)

text \<open>
  C6. \<^verbatim>\<open>New\<close> is all-or-nothing. When every status parses and every pattern
  compiles, it returns a middleware and no error, and each parsed response holds the
  ranges of its status and, rule by rule, the compiled pattern and the replacement of
  its configuration. Otherwise (some status does not parse, as \<^verbatim>\<open>200-abc\<close>,
  \<^verbatim>\<open>abc-200\<close> and \<^verbatim>\<open>200,299foo\<close> do not, or some pattern does not compile) it
  returns an error and no middleware. It never returns both, or neither.
\<close>

theorem New_all_or_nothing:
  "(list_all (response_ok strict compile) (Responses config) \<longrightarrow>
      (\<exists>mw. New strict compile nxt config nm = (Some mw, None) \<and>
            list_all2 (parsed_from strict compile) (Responses config) (responses mw) \<and>
            nextHandler mw = nxt \<and> name mw = nm \<and> lastModified mw)) \<and>
   (\<not> list_all (response_ok strict compile) (Responses config) \<longrightarrow>
      (\<exists>err. New strict compile nxt config nm = (None, Some err))) \<and>
   ((\<exists>response\<in>set (Responses config).
        Status response \<in> {''200-abc'', ''abc-200'', ''200,299foo''} \<or>
        (\<exists>rewriteConfig\<in>set (Rewrites response). isl (compile (Regex rewriteConfig)))) \<longrightarrow>
      (\<exists>err. New strict compile nxt config nm = (None, Some err)))"
proof (intro conjI impI)
  assume "list_all (response_ok strict compile) (Responses config)"
  then show "\<exists>mw. New strict compile nxt config nm = (Some mw, None) \<and>
            list_all2 (parsed_from strict compile) (Responses config) (responses mw) \<and>
            nextHandler mw = nxt \<and> name mw = nm \<and> lastModified mw"
    by (rule New_ok)
next
  assume "\<not> list_all (response_ok strict compile) (Responses config)"
  then show "\<exists>err. New strict compile nxt config nm = (None, Some err)"
    by (rule New_failed)
next
  assume "\<exists>response\<in>set (Responses config).
        Status response \<in> {''200-abc'', ''abc-200'', ''200,299foo''} \<or>
        (\<exists>rewriteConfig\<in>set (Rewrites response). isl (compile (Regex rewriteConfig)))"
  then obtain response where mem: "response \<in> set (Responses config)"
    and bad: "Status response \<in> {''200-abc'', ''abc-200'', ''200,299foo''} \<or>
        (\<exists>rewriteConfig\<in>set (Rewrites response). isl (compile (Regex rewriteConfig)))"
    by blast
  have "\<not> response_ok strict compile response"
    using bad bad_statuses [of strict]
    by (auto simp: response_ok_def list_all_iff)
  then have "\<not> list_all (response_ok strict compile) (Responses config)"
    using mem by (auto simp: list_all_iff)
  then show "\<exists>err. New strict compile nxt config nm = (None, Some err)"
    by (rule New_failed)
qed

theorem New_all_or_nothing_witness:
  "list_all (response_ok True test_Compile) (Responses config_ok) \<and>
   (\<exists>mw. New True test_Compile () config_ok ''rewriteBody'' = (Some mw, None) \<and>
         list_all2 (parsed_from True test_Compile) (Responses config_ok) (responses mw) \<and>
         nextHandler mw = () \<and> name mw = ''rewriteBody'' \<and> lastModified mw) \<and>
   \<not> list_all (response_ok True test_Compile) (Responses config_bad_regex) \<and>
   (\<exists>err. New True test_Compile () config_bad_regex ''rewriteBody'' = (None, Some err)) \<and>
   (\<exists>response\<in>set (Responses config_bad_status).
       Status response \<in> {''200-abc'', ''abc-200'', ''200,299foo''}) \<and>
   (\<exists>err. New True test_Compile () config_bad_status ''rewriteBody'' = (None, Some err))"
proof -
  have ok: "list_all (response_ok True test_Compile) (Responses config_ok)"
    by (simp add: config_ok_def response_ok_def test_Compile_def range_parsing)
  have bad: "\<not> list_all (response_ok True test_Compile) (Responses config_bad_regex)"
    by (simp add: config_bad_regex_def response_ok_def test_Compile_def)
  have st: "\<exists>response\<in>set (Responses config_bad_status).
       Status response \<in> {''200-abc'', ''abc-200'', ''200,299foo''}"
    by (simp add: config_bad_status_def)
  show ?thesis
    using ok bad st
      New_all_or_nothing [of True test_Compile config_ok "()" "''rewriteBody''"]
      New_all_or_nothing [of True test_Compile config_bad_regex "()" "''rewriteBody''"]
      New_all_or_nothing [of True test_Compile config_bad_status "()" "''rewriteBody''"]
    by blast
qed

section \<open>The wrapping writer: the three cases of \<^verbatim>\<open>WriteHeader\<close>\<close>

lemma final_statuses_append: "final_statuses (xs @ ys) = final_statuses xs @ final_statuses ys"
  by (induction xs rule: final_statuses.induct) auto

lemma bodies_append: "bodies (xs @ ys) = bodies xs @ bodies ys"
  by (induction xs rule: bodies.induct) auto

lemma Del_absent: "Del k h k = None"
  by (simp add: Del_def)

lemma WriteHeader_sent: "headersSent r \<Longrightarrow> WriteHeader c r = r"
  by (simp add: WriteHeader_def)

lemma WriteHeader_info:
  "\<not> headersSent r \<Longrightarrow> 100 \<le> c \<Longrightarrow> c \<le> 199 \<Longrightarrow>
   WriteHeader c r =
     r\<lparr>ResponseWriter := (ResponseWriter r)
          \<lparr>sink_header := sink_header (ResponseWriter r) ++ headerMap r,
           sink_log := sink_log (ResponseWriter r) @
             [StatusWritten c (sink_header (ResponseWriter r) ++ headerMap r)]\<rparr>\<rparr>"
  by (simp add: WriteHeader_def Header_def copy_headers_def sink_WriteHeader_def)

lemma WriteHeader_final:
  "\<not> headersSent r \<Longrightarrow> \<not> (100 \<le> c \<and> c \<le> 199) \<Longrightarrow>
   WriteHeader c r =
     r\<lparr>code := c,
       ResponseWriter := (ResponseWriter r)
          \<lparr>sink_header := Del ''Content-Length'' (sink_header (ResponseWriter r) ++ headerMap r),
           sink_log := sink_log (ResponseWriter r) @
             [StatusWritten c (Del ''Content-Length'' (sink_header (ResponseWriter r) ++ headerMap r))]\<rparr>,
       headersSent := True\<rparr>"
  by (auto simp: WriteHeader_def Header_def copy_headers_def sink_WriteHeader_def Let_def)

section \<open>Runs of the handler\<close>

lemma do_call_run_ok: "\<exists>new. run_ok r (do_call c r) new"
proof (cases c)
  case (CallWriteHeader s)
  show ?thesis
  proof (cases "headersSent r")
    case True
    then show ?thesis using CallWriteHeader by (simp add: run_ok_def WriteHeader_sent)
  next
    case False
    show ?thesis
    proof (cases "100 \<le> s \<and> s \<le> 199")
      case True
      then show ?thesis using CallWriteHeader False
        by (simp add: run_ok_def WriteHeader_info)
    next
      case nf: False
      then show ?thesis using CallWriteHeader False
        by (simp add: run_ok_def WriteHeader_final Del_absent)
    qed
  qed
next
  case (CallWrite p)
  show ?thesis
  proof (cases "headersSent r")
    case True
    then show ?thesis using CallWrite by (simp add: run_ok_def Write_def)
  next
    case False
    then show ?thesis using CallWrite
      by (simp add: run_ok_def Write_def WriteHeader_final Del_absent)
  qed
qed (auto simp: run_ok_def Header_update_def Flush_def Hijack_def)

lemma run_ok_trans:
  assumes "run_ok r r1 n1" and "run_ok r1 r2 n2"
  shows "run_ok r r2 (n1 @ n2)"
  using assms by (auto simp: run_ok_def final_statuses_append split: if_splits)

lemma handle_run_ok: "\<exists>new. run_ok r (handle cs r) new"
proof (induction cs arbitrary: r)
  case Nil
  show ?case by (simp add: run_ok_def)
next
  case (Cons c cs)
  obtain n1 where n1: "run_ok r (do_call c r) n1"
    using do_call_run_ok by blast
  obtain n2 where n2: "run_ok (do_call c r) (handle cs (do_call c r)) n2"
    using Cons.IH by blast
  show ?case using run_ok_trans [OF n1 n2] by auto
qed

lemma run_ok_events:
  "run_ok r r' new \<Longrightarrow> events_since (ResponseWriter r) (ResponseWriter r') = new"
  by (simp add: run_ok_def events_since_def)

lemma bodies_do_call:
  "bodies (sink_log (ResponseWriter (do_call c r))) = bodies (sink_log (ResponseWriter r))"
  by (cases c)
    (auto simp: Header_update_def WriteHeader_def Write_def Flush_def Hijack_def Let_def
       copy_headers_def sink_WriteHeader_def bodies_append)

lemma bodies_handle:
  "bodies (sink_log (ResponseWriter (handle cs r))) = bodies (sink_log (ResponseWriter r))"
  by (induction cs arbitrary: r) (simp_all add: bodies_do_call)

lemma buffer_WriteHeader: "buffer (WriteHeader c r) = buffer r"
  by (simp add: WriteHeader_def Let_def)

lemma buffer_do_call: "buffer (do_call c r) = buffer r @ written [c]"
  by (cases c) (simp_all add: Header_update_def Write_def buffer_WriteHeader Flush_def Hijack_def)

lemma written_Cons: "written (c # cs) = written [c] @ written cs"
  by (cases c) simp_all

lemma buffer_handle: "buffer (handle cs r) = buffer r @ written cs"
proof (induction cs arbitrary: r)
  case Nil
  show ?case by simp
next
  case (Cons c cs)
  show ?case using Cons.IH [of "do_call c r"] written_Cons [of c cs]
    by (simp add: buffer_do_call)
qed

lemma code_no_status:
  "\<forall>c\<in>set cs. \<not> is_status_call c \<Longrightarrow> code r = 200 \<Longrightarrow> code (handle cs r) = 200"
proof (induction cs arbitrary: r)
  case Nil
  then show ?case by simp
next
  case (Cons c cs)
  have "code (do_call c r) = 200" using Cons.prems
    by (cases c) (auto simp: Header_update_def Write_def WriteHeader_def Let_def Flush_def Hijack_def)
  then show ?case using Cons by simp
qed

section \<open>The two loops of \<^verbatim>\<open>ServeHTTP\<close>\<close>

lemma apply_rewrites_chain: "apply_rewrites RA rules body = chain RA rules body"
  by (induction rules arbitrary: body) (simp_all add: chain_def)

lemma apply_rewrites_append:
  "apply_rewrites RA (rs1 @ rs2) body = apply_rewrites RA rs2 (apply_rewrites RA rs1 body)"
  by (induction rs1 arbitrary: body) simp_all

lemma rewrite_body_rewritten: "rewrite_body RA rs c body = rewritten RA rs c body"
  by (induction rs) (simp_all add: rewritten_def first_match_def apply_rewrites_chain)

lemma rewrite_body_first:
  "\<forall>p\<in>set pre. \<not> Contains (status p) c \<Longrightarrow> Contains (status m) c \<Longrightarrow>
   rewrite_body RA (pre @ m # post) c body = apply_rewrites RA (rewriteRules m) body"
  by (induction pre) simp_all

lemma rewrite_body_none:
  "\<forall>p\<in>set rs. \<not> Contains (status p) c \<Longrightarrow> rewrite_body RA rs c body = body"
  by (induction rs) simp_all

lemma ServeHTTP_unfold:
  "ServeHTTP RA r rw req =
     sink_Write
       (if Get (Header (handle (nextHandler r req) (wrap r rw))) ''Content-Encoding'' \<noteq> [] \<and>
           Get (Header (handle (nextHandler r req) (wrap r rw))) ''Content-Encoding'' \<noteq> ''identity''
        then written (nextHandler r req)
        else rewritten RA (responses r) (code (handle (nextHandler r req) (wrap r rw)))
               (written (nextHandler r req)))
       (ResponseWriter (handle (nextHandler r req) (wrap r rw)))"
proof -
  have "buffer (handle (nextHandler r req) (wrap r rw)) = written (nextHandler r req)"
    using buffer_handle [of "nextHandler r req" "wrap r rw"] by (simp add: wrap_def)
  then show ?thesis
    by (simp add: ServeHTTP_def Let_def rewrite_body_rewritten)
qed

lemma ServeHTTP_header:
  "sink_header (ServeHTTP RA r rw req) =
     sink_header (ResponseWriter (handle (nextHandler r req) (wrap r rw)))"
  by (simp add: ServeHTTP_unfold sink_Write_def)

lemma ServeHTTP_final_statuses:
  "final_statuses (events_since rw (ServeHTTP RA r rw req)) =
     final_statuses (events_since rw (ResponseWriter (handle (nextHandler r req) (wrap r rw))))"
proof -
  obtain new where new: "run_ok (wrap r rw) (handle (nextHandler r req) (wrap r rw)) new"
    using handle_run_ok by blast
  then have log: "sink_log (ResponseWriter (handle (nextHandler r req) (wrap r rw))) = sink_log rw @ new"
    by (simp add: run_ok_def wrap_def)
  then show ?thesis
    by (simp add: ServeHTTP_unfold sink_Write_def events_since_def final_statuses_append)
qed

lemma ServeHTTP_bodies:
  "bodies (events_since rw (ServeHTTP RA r rw req)) =
     (if Get (Header (handle (nextHandler r req) (wrap r rw))) ''Content-Encoding'' \<noteq> [] \<and>
         Get (Header (handle (nextHandler r req) (wrap r rw))) ''Content-Encoding'' \<noteq> ''identity''
      then written (nextHandler r req)
      else rewritten RA (responses r) (code (handle (nextHandler r req) (wrap r rw)))
             (written (nextHandler r req)))"
proof -
  obtain new where new: "run_ok (wrap r rw) (handle (nextHandler r req) (wrap r rw)) new"
    using handle_run_ok by blast
  then have log: "sink_log (ResponseWriter (handle (nextHandler r req) (wrap r rw))) = sink_log rw @ new"
    by (simp add: run_ok_def wrap_def)
  have "bodies (sink_log (ResponseWriter (handle (nextHandler r req) (wrap r rw)))) =
        bodies (sink_log (ResponseWriter (wrap r rw)))"
    by (rule bodies_handle)
  then have "bodies (sink_log rw @ new) = bodies (sink_log rw)"
    unfolding log by (simp add: wrap_def)
  then have none: "bodies new = []"
    by (simp add: bodies_append)
  show ?thesis
    by (simp add: ServeHTTP_unfold sink_Write_def events_since_def log bodies_append none)
qed

lemma request_statuses:
  "if headersSent (handle cs (wrap r rw))
   then \<exists>h. final_statuses (events_since rw (ResponseWriter (handle cs (wrap r rw)))) =
               [(code (handle cs (wrap r rw)), h)] \<and> h ''Content-Length'' = None
   else final_statuses (events_since rw (ResponseWriter (handle cs (wrap r rw)))) = [] \<and>
        code (handle cs (wrap r rw)) = 200"
proof -
  obtain new where new: "run_ok (wrap r rw) (handle cs (wrap r rw)) new"
    using handle_run_ok by blast
  have ev: "events_since rw (ResponseWriter (handle cs (wrap r rw))) = new"
    using run_ok_events [OF new] by (simp add: wrap_def)
  show ?thesis using new unfolding ev
    by (simp add: run_ok_def wrap_def)
qed

section \<open>Evaluating the test cases\<close>

lemmas run_defs =
  ServeHTTP_def wrap_def test_middleware_def test_next_def recorder_def Header_update_def
  WriteHeader_def Write_def Header_def copy_headers_def sink_WriteHeader_def sink_Write_def
  Del_def Get_def events_since_def Let_def plain_next_def gzip_next_def identity_next_def
  not_found_next_def write_only_def pending_def early_hints_only_def foo_bar_def foo_bar_foo_def
  literal_ReplaceAll_def rewritten_def first_match_def chain_def

lemma pending_unsent: "\<not> headersSent pending"
  by (simp add: run_defs)

lemma pending_headers:
  "headerMap pending ''Content-Length'' = Some [''18'']"
  "dom (headerMap pending) = {''Last-Modified'', ''Content-Length''}"
  by (auto simp add: run_defs)

section \<open>Informational status writes\<close>

lemma map_add_twice: "(h ++ m) ++ m = h ++ (m :: header)"
  by (simp add: map_add_assoc [symmetric] map_add_def fun_eq_iff split: option.splits)

lemma informational_run:
  "\<not> headersSent w \<Longrightarrow> cs \<noteq> [] \<Longrightarrow> \<forall>c\<in>set cs. 100 \<le> c \<and> c \<le> 199 \<Longrightarrow>
   handle (map CallWriteHeader cs) w =
     w\<lparr>ResponseWriter := (ResponseWriter w)
          \<lparr>sink_header := sink_header (ResponseWriter w) ++ headerMap w,
           sink_log := sink_log (ResponseWriter w) @
             map (\<lambda>c. StatusWritten c (sink_header (ResponseWriter w) ++ headerMap w)) cs\<rparr>\<rparr>"
proof (induction cs arbitrary: w)
  case Nil
  then show ?case by simp
next
  case (Cons c cs)
  have c: "100 \<le> c" "c \<le> 199" using Cons.prems by auto
  let ?w1 = "WriteHeader c w"
  have w1: "?w1 = w\<lparr>ResponseWriter := (ResponseWriter w)
          \<lparr>sink_header := sink_header (ResponseWriter w) ++ headerMap w,
           sink_log := sink_log (ResponseWriter w) @
             [StatusWritten c (sink_header (ResponseWriter w) ++ headerMap w)]\<rparr>\<rparr>"
    using WriteHeader_info [OF Cons.prems(1) c] .
  show ?case
  proof (cases "cs = []")
    case True
    then show ?thesis using w1 by simp
  next
    case False
    have ns: "\<not> headersSent ?w1" using w1 Cons.prems(1) by simp
    have "\<forall>c\<in>set cs. 100 \<le> c \<and> c \<le> 199" using Cons.prems by simp
    from Cons.IH [OF ns False this] show ?thesis
      by (simp add: w1 map_add_twice)
  qed
qed

text \<open>
  C9. On a writer whose headers are not sent, \<^verbatim>\<open>WriteHeader\<close> with a code from 100
  to 199 assigns the private headers on the real writer, key by key, and forwards the
  status at once; it changes nothing else, so the headers stay unsent and the captured
  code stays what it was. After any number of such writes the real writer holds, for
  every private key, exactly the private values (nothing is repeated), and a following
  status outside 100 to 199 commits as usual.
\<close>

theorem WriteHeader_informational:
  "(\<not> headersSent w \<and> 100 \<le> c \<and> c \<le> 199 \<longrightarrow>
      WriteHeader c w =
        w\<lparr>ResponseWriter := (ResponseWriter w)
          \<lparr>sink_header := sink_header (ResponseWriter w) ++ headerMap w,
           sink_log := sink_log (ResponseWriter w) @
             [StatusWritten c (sink_header (ResponseWriter w) ++ headerMap w)]\<rparr>\<rparr> \<and>
      \<not> headersSent (WriteHeader c w) \<and> code (WriteHeader c w) = code w) \<and>
   (\<not> headersSent w \<and> cs \<noteq> [] \<and> (\<forall>c\<in>set cs. 100 \<le> c \<and> c \<le> 199) \<longrightarrow>
      handle (map CallWriteHeader cs) w =
        w\<lparr>ResponseWriter := (ResponseWriter w)
          \<lparr>sink_header := sink_header (ResponseWriter w) ++ headerMap w,
           sink_log := sink_log (ResponseWriter w) @
             map (\<lambda>c. StatusWritten c (sink_header (ResponseWriter w) ++ headerMap w)) cs\<rparr>\<rparr> \<and>
      (\<forall>k\<in>dom (headerMap w).
          sink_header (ResponseWriter (handle (map CallWriteHeader cs) w)) k = headerMap w k) \<and>
      (\<not> (100 \<le> c2 \<and> c2 \<le> 199) \<longrightarrow>
          headersSent (WriteHeader c2 (handle (map CallWriteHeader cs) w)) \<and>
          code (WriteHeader c2 (handle (map CallWriteHeader cs) w)) = c2 \<and>
          sink_log (ResponseWriter (WriteHeader c2 (handle (map CallWriteHeader cs) w))) =
            sink_log (ResponseWriter w) @
            map (\<lambda>c. StatusWritten c (sink_header (ResponseWriter w) ++ headerMap w)) cs @
            [StatusWritten c2 (Del ''Content-Length'' (sink_header (ResponseWriter w) ++ headerMap w))]))"
proof (intro conjI impI)
  assume a: "\<not> headersSent w \<and> 100 \<le> c \<and> c \<le> 199"
  then have eq: "WriteHeader c w =
        w\<lparr>ResponseWriter := (ResponseWriter w)
          \<lparr>sink_header := sink_header (ResponseWriter w) ++ headerMap w,
           sink_log := sink_log (ResponseWriter w) @
             [StatusWritten c (sink_header (ResponseWriter w) ++ headerMap w)]\<rparr>\<rparr>"
    by (simp add: WriteHeader_info)
  show "WriteHeader c w =
        w\<lparr>ResponseWriter := (ResponseWriter w)
          \<lparr>sink_header := sink_header (ResponseWriter w) ++ headerMap w,
           sink_log := sink_log (ResponseWriter w) @
             [StatusWritten c (sink_header (ResponseWriter w) ++ headerMap w)]\<rparr>\<rparr>"
    by (rule eq)
  show "\<not> headersSent (WriteHeader c w)" using a by (simp add: eq)
  show "code (WriteHeader c w) = code w" by (simp add: eq)
next
  assume a: "\<not> headersSent w \<and> cs \<noteq> [] \<and> (\<forall>c\<in>set cs. 100 \<le> c \<and> c \<le> 199)"
  then have eq: "handle (map CallWriteHeader cs) w =
        w\<lparr>ResponseWriter := (ResponseWriter w)
          \<lparr>sink_header := sink_header (ResponseWriter w) ++ headerMap w,
           sink_log := sink_log (ResponseWriter w) @
             map (\<lambda>c. StatusWritten c (sink_header (ResponseWriter w) ++ headerMap w)) cs\<rparr>\<rparr>"
    by (simp add: informational_run)
  show "handle (map CallWriteHeader cs) w =
        w\<lparr>ResponseWriter := (ResponseWriter w)
          \<lparr>sink_header := sink_header (ResponseWriter w) ++ headerMap w,
           sink_log := sink_log (ResponseWriter w) @
             map (\<lambda>c. StatusWritten c (sink_header (ResponseWriter w) ++ headerMap w)) cs\<rparr>\<rparr>"
    by (rule eq)
  show "\<forall>k\<in>dom (headerMap w).
          sink_header (ResponseWriter (handle (map CallWriteHeader cs) w)) k = headerMap w k"
    by (auto simp: eq map_add_def)
  {
    assume nf: "\<not> (100 \<le> c2 \<and> c2 \<le> 199)"
    have ns: "\<not> headersSent (handle (map CallWriteHeader cs) w)" using a by (simp add: eq)
    note fin = WriteHeader_final [OF ns nf]
    show "headersSent (WriteHeader c2 (handle (map CallWriteHeader cs) w))"
      by (simp add: fin)
    show "code (WriteHeader c2 (handle (map CallWriteHeader cs) w)) = c2"
      by (simp add: fin)
    show "sink_log (ResponseWriter (WriteHeader c2 (handle (map CallWriteHeader cs) w))) =
            sink_log (ResponseWriter w) @
            map (\<lambda>c. StatusWritten c (sink_header (ResponseWriter w) ++ headerMap w)) cs @
            [StatusWritten c2 (Del ''Content-Length'' (sink_header (ResponseWriter w) ++ headerMap w))]"
      by (simp add: fin) (simp add: eq map_add_twice)
  }
qed

theorem WriteHeader_informational_witness:
  "\<not> headersSent pending \<and> 100 \<le> (103::int) \<and> (103::int) \<le> 199 \<and>
   \<not> headersSent (WriteHeader 103 pending) \<and> code (WriteHeader 103 pending) = code pending \<and>
   [103, 100 :: int] \<noteq> [] \<and>
   ''Content-Length'' \<in> dom (headerMap pending) \<and>
   sink_header (ResponseWriter (handle (map CallWriteHeader [103, 100]) pending)) ''Content-Length''
     = Some [''18''] \<and>
   \<not> (100 \<le> (200::int) \<and> (200::int) \<le> 199) \<and>
   headersSent (WriteHeader 200 (handle (map CallWriteHeader [103, 100]) pending)) \<and>
   code (WriteHeader 200 (handle (map CallWriteHeader [103, 100]) pending)) = 200"
proof -
  note T = WriteHeader_informational [of pending 103 "[103, 100]" 200]
  have h1: "\<not> headersSent pending \<and> 100 \<le> (103::int) \<and> (103::int) \<le> 199"
    by (simp add: pending_unsent)
  have h2: "\<not> headersSent pending \<and> [103, 100 :: int] \<noteq> [] \<and>
            (\<forall>c\<in>set [103, 100 :: int]. 100 \<le> c \<and> c \<le> 199)"
    by (simp add: pending_unsent)
  have h3: "\<not> (100 \<le> (200::int) \<and> (200::int) \<le> 199)" by simp
  note a = T [THEN conjunct1, THEN mp, OF h1]
  note b = T [THEN conjunct2, THEN mp, OF h2]
  note b2 = b [THEN conjunct2, THEN conjunct1]
  note b3 = b [THEN conjunct2, THEN conjunct2, THEN mp, OF h3]
  have cl: "''Content-Length'' \<in> dom (headerMap pending)"
    by (simp add: pending_headers)
  have "sink_header (ResponseWriter (handle (map CallWriteHeader [103, 100]) pending)) ''Content-Length''
     = Some [''18'']"
    using bspec [OF b2 cl] by (simp only: pending_headers)
  then show ?thesis
    using h1 h3 cl a [THEN conjunct2] b3 [THEN conjunct1] b3 [THEN conjunct2, THEN conjunct1]
    by (intro conjI) simp_all
qed

section \<open>The \<^verbatim>\<open>Content-Length\<close> header\<close>

lemma WriteHeader_part_001_final:
  "\<not> headersSent r \<Longrightarrow> \<not> (100 \<le> c \<and> c \<le> 199) \<Longrightarrow> bodyRewrited rs c False \<Longrightarrow>
   WriteHeader_part_001 rs c r =
     r\<lparr>code := c,
       ResponseWriter := (ResponseWriter r)
          \<lparr>sink_header := Del ''Content-Length'' (sink_header (ResponseWriter r)),
           sink_log := sink_log (ResponseWriter r) @
             [StatusWritten c (Del ''Content-Length'' (sink_header (ResponseWriter r)))]\<rparr>,
       headersSent := True\<rparr>"
  by (auto simp: WriteHeader_part_001_def sink_WriteHeader_def Let_def)

lemma bodyRewrited_iff:
  "bodyRewrited rs c flag \<longleftrightarrow> flag \<or> (\<exists>p\<in>set rs. Contains (status p) c)"
  by (induction rs arbitrary: flag) auto

lemma sent_keeps_absent:
  "headersSent w \<Longrightarrow> sink_header (ResponseWriter w) k = None \<Longrightarrow>
   \<forall>c\<in>set cs. \<forall>vs. c \<noteq> SetHeader k vs \<Longrightarrow>
   headersSent (handle cs w) \<and> sink_header (ResponseWriter (handle cs w)) k = None"
proof (induction cs arbitrary: w)
  case Nil
  then show ?case by simp
next
  case (Cons c cs)
  have "headersSent (do_call c w) \<and> sink_header (ResponseWriter (do_call c w)) k = None"
    using Cons.prems
    by (cases c) (auto simp: Header_update_def WriteHeader_sent Write_def Flush_def Hijack_def)
  then show ?case using Cons by simp
qed

lemma pending_commit:
  "headersSent (WriteHeader 200 pending)"
  "sink_header (ResponseWriter (WriteHeader 200 pending)) ''Content-Length'' = None"
  by (simp_all add: run_defs)

lemma handle_append: "handle (xs @ ys) w = handle ys (handle xs w)"
  by (induction xs arbitrary: w) simp_all

lemma commit_deletes:
  "\<not> headersSent w \<Longrightarrow> headersSent (do_call c w) \<Longrightarrow>
   sink_header (ResponseWriter (do_call c w)) ''Content-Length'' = None"
proof (cases c)
  case (CallWriteHeader s)
  assume ns: "\<not> headersSent w" and s: "headersSent (do_call c w)"
  show ?thesis
  proof (cases "100 \<le> s \<and> s \<le> 199")
    case True
    then show ?thesis using ns s CallWriteHeader by (simp add: WriteHeader_info)
  next
    case False
    then show ?thesis using ns CallWriteHeader by (simp add: WriteHeader_final Del_absent)
  qed
next
  case (CallWrite p)
  assume ns: "\<not> headersSent w"
  then show ?thesis using CallWrite by (simp add: Write_def WriteHeader_final Del_absent)
qed (auto simp: Header_update_def Flush_def Hijack_def split: if_splits)

lemma request_keeps_absent:
  assumes "nextHandler r req = pre @ cc # post"
    and "\<not> headersSent (handle pre (wrap r rw))"
    and "headersSent (do_call cc (handle pre (wrap r rw)))"
    and "\<forall>c\<in>set post. \<forall>vs. c \<noteq> SetHeader ''Content-Length'' vs"
  shows "sink_header (ServeHTTP RA r rw req) ''Content-Length'' = None"
proof -
  let ?w = "do_call cc (handle pre (wrap r rw))"
  have d: "sink_header (ResponseWriter ?w) ''Content-Length'' = None"
    using commit_deletes [OF assms(2) assms(3)] .
  have "handle (nextHandler r req) (wrap r rw) = handle post ?w"
    by (simp add: assms(1) handle_append)
  then show ?thesis
    using sent_keeps_absent [OF assms(3) d assms(4)]
    by (simp add: ServeHTTP_header)
qed

lemma plain_split:
  "plain_next () =
     [SetHeader ''Content-Encoding'' [[]],
      SetHeader ''Last-Modified'' [''Thu, 02 Jun 2016 06:01:08 GMT''],
      SetHeader ''Content-Length'' [''18'']] @
     CallWriteHeader 200 # [CallWrite ''foo is the new bar'']"
  "\<not> headersSent (handle
     [SetHeader ''Content-Encoding'' [[]],
      SetHeader ''Last-Modified'' [''Thu, 02 Jun 2016 06:01:08 GMT''],
      SetHeader ''Content-Length'' [''18'']] (wrap (test_middleware [foo_bar] plain_next) recorder))"
  "headersSent (do_call (CallWriteHeader 200) (handle
     [SetHeader ''Content-Encoding'' [[]],
      SetHeader ''Last-Modified'' [''Thu, 02 Jun 2016 06:01:08 GMT''],
      SetHeader ''Content-Length'' [''18'']] (wrap (test_middleware [foo_bar] plain_next) recorder)))"
  by (simp_all add: run_defs)


text \<open>
  C4, as amended. When the status that is committed (a code outside 100 to 199, on a
  writer whose headers are not sent) lies in the range of some configured response,
  \<^verbatim>\<open>Content-Length\<close> is deleted from the real writer's headers at the commit, and
  the status is written with the headers so left: this holds for \<^verbatim>\<open>WriteHeader\<close>
  of \<^verbatim>\<open>main.go\<close> and for the variant of \<^verbatim>\<open>src/unnamed/part_001\<close>. For a
  whole request: the one final status the real writer receives carries no
  \<^verbatim>\<open>Content-Length\<close>, whatever the body and its rewriting, and
  \<^verbatim>\<open>ServeHTTP\<close> leaves the headers as the handler left them. When the handler
  does not assign \<^verbatim>\<open>Content-Length\<close> again through \<^verbatim>\<open>Header()\<close> after the
  call that commits, the real writer's headers hold no \<^verbatim>\<open>Content-Length\<close> when
  the request completes.
\<close>

theorem Content_Length_deleted_on_match:
  "(\<not> headersSent w \<and> \<not> (100 \<le> c \<and> c \<le> 199) \<and> (\<exists>p\<in>set rs. Contains (status p) c) \<longrightarrow>
      sink_header (ResponseWriter (WriteHeader c w)) ''Content-Length'' = None \<and>
      sink_log (ResponseWriter (WriteHeader c w)) =
        sink_log (ResponseWriter w) @
        [StatusWritten c (sink_header (ResponseWriter (WriteHeader c w)))] \<and>
      sink_header (ResponseWriter (WriteHeader_part_001 rs c w)) ''Content-Length'' = None \<and>
      sink_log (ResponseWriter (WriteHeader_part_001 rs c w)) =
        sink_log (ResponseWriter w) @
        [StatusWritten c (sink_header (ResponseWriter (WriteHeader_part_001 rs c w)))]) \<and>
   (headersSent (handle (nextHandler r req) (wrap r rw)) \<and>
    (\<exists>p\<in>set (responses r). Contains (status p) (code (handle (nextHandler r req) (wrap r rw)))) \<longrightarrow>
      (\<exists>h. final_statuses (events_since rw (ServeHTTP RA r rw req)) =
              [(code (handle (nextHandler r req) (wrap r rw)), h)] \<and>
           h ''Content-Length'' = None) \<and>
      sink_header (ServeHTTP RA r rw req) =
        sink_header (ResponseWriter (handle (nextHandler r req) (wrap r rw)))) \<and>
   (headersSent w \<and> sink_header (ResponseWriter w) ''Content-Length'' = None \<and>
    (\<forall>c\<in>set cs. \<forall>vs. c \<noteq> SetHeader ''Content-Length'' vs) \<longrightarrow>
      sink_header (ResponseWriter (handle cs w)) ''Content-Length'' = None) \<and>
   (nextHandler r req = pre @ cc # post \<and>
    \<not> headersSent (handle pre (wrap r rw)) \<and>
    headersSent (do_call cc (handle pre (wrap r rw))) \<and>
    (\<forall>c\<in>set post. \<forall>vs. c \<noteq> SetHeader ''Content-Length'' vs) \<longrightarrow>
      sink_header (ServeHTTP RA r rw req) ''Content-Length'' = None)"
proof (intro conjI impI)
  assume a: "\<not> headersSent w \<and> \<not> (100 \<le> c \<and> c \<le> 199) \<and> (\<exists>p\<in>set rs. Contains (status p) c)"
  then have ns: "\<not> headersSent w" and nf: "\<not> (100 \<le> c \<and> c \<le> 199)"
    and br: "bodyRewrited rs c False"
    by (simp_all add: bodyRewrited_iff)
  note m = WriteHeader_final [OF ns nf]
  note v = WriteHeader_part_001_final [OF ns nf br]
  show "sink_header (ResponseWriter (WriteHeader c w)) ''Content-Length'' = None"
    by (simp add: m Del_absent)
  show "sink_log (ResponseWriter (WriteHeader c w)) =
        sink_log (ResponseWriter w) @
        [StatusWritten c (sink_header (ResponseWriter (WriteHeader c w)))]"
    by (simp add: m)
  show "sink_header (ResponseWriter (WriteHeader_part_001 rs c w)) ''Content-Length'' = None"
    by (simp add: v Del_absent)
  show "sink_log (ResponseWriter (WriteHeader_part_001 rs c w)) =
        sink_log (ResponseWriter w) @
        [StatusWritten c (sink_header (ResponseWriter (WriteHeader_part_001 rs c w)))]"
    by (simp add: v)
next
  assume a: "headersSent (handle (nextHandler r req) (wrap r rw)) \<and>
    (\<exists>p\<in>set (responses r). Contains (status p) (code (handle (nextHandler r req) (wrap r rw))))"
  show "\<exists>h. final_statuses (events_since rw (ServeHTTP RA r rw req)) =
              [(code (handle (nextHandler r req) (wrap r rw)), h)] \<and>
           h ''Content-Length'' = None"
    using a request_statuses [of "nextHandler r req" r rw]
    by (simp add: ServeHTTP_final_statuses)
  show "sink_header (ServeHTTP RA r rw req) =
        sink_header (ResponseWriter (handle (nextHandler r req) (wrap r rw)))"
    by (rule ServeHTTP_header)
next
  assume "headersSent w \<and> sink_header (ResponseWriter w) ''Content-Length'' = None \<and>
    (\<forall>c\<in>set cs. \<forall>vs. c \<noteq> SetHeader ''Content-Length'' vs)"
  then show "sink_header (ResponseWriter (handle cs w)) ''Content-Length'' = None"
    using sent_keeps_absent [of w "''Content-Length''" cs] by blast
next
  assume "nextHandler r req = pre @ cc # post \<and>
    \<not> headersSent (handle pre (wrap r rw)) \<and>
    headersSent (do_call cc (handle pre (wrap r rw))) \<and>
    (\<forall>c\<in>set post. \<forall>vs. c \<noteq> SetHeader ''Content-Length'' vs)"
  then show "sink_header (ServeHTTP RA r rw req) ''Content-Length'' = None"
    using request_keeps_absent [of r req pre cc post rw RA] by blast
qed

theorem Content_Length_deleted_on_match_witness:
  "\<not> headersSent pending \<and> \<not> (100 \<le> (200::int) \<and> (200::int) \<le> 199) \<and>
   (\<exists>p\<in>set [foo_bar]. Contains (status p) 200) \<and>
   headerMap pending ''Content-Length'' = Some [''18''] \<and>
   sink_header (ResponseWriter (WriteHeader 200 pending)) ''Content-Length'' = None \<and>
   sink_header (ResponseWriter (WriteHeader_part_001 [foo_bar] 200 pending)) ''Content-Length'' = None \<and>
   headersSent (handle (plain_next ()) (wrap (test_middleware [foo_bar] plain_next) recorder)) \<and>
   (\<exists>h. final_statuses (events_since recorder
            (ServeHTTP literal_ReplaceAll (test_middleware [foo_bar] plain_next) recorder ()))
          = [(200, h)] \<and> h ''Content-Length'' = None) \<and>
   headersSent (WriteHeader 200 pending) \<and>
   sink_header (ResponseWriter (handle [CallWrite ''foo''] (WriteHeader 200 pending))) ''Content-Length'' = None \<and>
   sink_header (ServeHTTP literal_ReplaceAll (test_middleware [foo_bar] plain_next) recorder ())
     ''Content-Length'' = None"
proof -
  note T = Content_Length_deleted_on_match [of pending 200 "[foo_bar]"
      "test_middleware [foo_bar] plain_next" "()" recorder literal_ReplaceAll "[CallWrite ''foo'']"]
  note U = Content_Length_deleted_on_match [of "WriteHeader 200 pending" 200 "[foo_bar]"
      "test_middleware [foo_bar] plain_next" "()" recorder literal_ReplaceAll "[CallWrite ''foo'']"]
  have m: "\<exists>p\<in>set [foo_bar]. Contains (status p) 200"
    by (simp add: foo_bar_def)
  have h1: "\<not> headersSent pending \<and> \<not> (100 \<le> (200::int) \<and> (200::int) \<le> 199) \<and>
            (\<exists>p\<in>set [foo_bar]. Contains (status p) 200)"
    using m by (simp add: pending_unsent)
  have sent: "headersSent (handle (plain_next ()) (wrap (test_middleware [foo_bar] plain_next) recorder))"
    by (simp add: run_defs)
  have cd: "code (handle (plain_next ()) (wrap (test_middleware [foo_bar] plain_next) recorder)) = 200"
    by (simp add: run_defs)
  have h2: "headersSent (handle (nextHandler (test_middleware [foo_bar] plain_next) ())
               (wrap (test_middleware [foo_bar] plain_next) recorder)) \<and>
            (\<exists>p\<in>set (responses (test_middleware [foo_bar] plain_next)).
                Contains (status p) (code (handle (nextHandler (test_middleware [foo_bar] plain_next) ())
               (wrap (test_middleware [foo_bar] plain_next) recorder))))"
    using sent cd m by (simp add: test_middleware_def)
  have h3: "headersSent (WriteHeader 200 pending) \<and>
            sink_header (ResponseWriter (WriteHeader 200 pending)) ''Content-Length'' = None \<and>
            (\<forall>c\<in>set [CallWrite ''foo'']. \<forall>vs. c \<noteq> SetHeader ''Content-Length'' vs)"
    by (simp add: pending_commit)
  note V = Content_Length_deleted_on_match [of pending 200 "[foo_bar]"
      "test_middleware [foo_bar] plain_next" "()" recorder literal_ReplaceAll "[CallWrite ''foo'']"
      "[SetHeader ''Content-Encoding'' [[]],
        SetHeader ''Last-Modified'' [''Thu, 02 Jun 2016 06:01:08 GMT''],
        SetHeader ''Content-Length'' [''18'']]"
      "CallWriteHeader 200" "[CallWrite ''foo is the new bar'']"]
  have h4: "nextHandler (test_middleware [foo_bar] plain_next) () =
      [SetHeader ''Content-Encoding'' [[]],
       SetHeader ''Last-Modified'' [''Thu, 02 Jun 2016 06:01:08 GMT''],
       SetHeader ''Content-Length'' [''18'']] @
      CallWriteHeader 200 # [CallWrite ''foo is the new bar''] \<and>
    \<not> headersSent (handle
      [SetHeader ''Content-Encoding'' [[]],
       SetHeader ''Last-Modified'' [''Thu, 02 Jun 2016 06:01:08 GMT''],
       SetHeader ''Content-Length'' [''18'']] (wrap (test_middleware [foo_bar] plain_next) recorder)) \<and>
    headersSent (do_call (CallWriteHeader 200) (handle
      [SetHeader ''Content-Encoding'' [[]],
       SetHeader ''Last-Modified'' [''Thu, 02 Jun 2016 06:01:08 GMT''],
       SetHeader ''Content-Length'' [''18'']] (wrap (test_middleware [foo_bar] plain_next) recorder))) \<and>
    (\<forall>c\<in>set [CallWrite ''foo is the new bar'']. \<forall>vs. c \<noteq> SetHeader ''Content-Length'' vs)"
    using plain_split by (simp add: test_middleware_def)
  note d = V [THEN conjunct2, THEN conjunct2, THEN conjunct2, THEN mp, OF h4]
  note a = T [THEN conjunct1, THEN mp, OF h1]
  note b = T [THEN conjunct2, THEN conjunct1, THEN mp, OF h2, THEN conjunct1]
  note c = U [THEN conjunct2, THEN conjunct2, THEN conjunct1, THEN mp, OF h3]
  have b': "\<exists>h. final_statuses (events_since recorder
            (ServeHTTP literal_ReplaceAll (test_middleware [foo_bar] plain_next) recorder ()))
          = [(200, h)] \<and> h ''Content-Length'' = None"
    using b cd by (simp add: test_middleware_def)
  show ?thesis
    using h1 pending_headers(1) a [THEN conjunct1] a [THEN conjunct2, THEN conjunct2, THEN conjunct1]
      sent b' pending_commit(1) c d
    by (intro conjI) simp_all
qed

text \<open>
  C4, as stated, fails: a handler that sets \<^verbatim>\<open>Content-Length\<close>, commits status
  200 (which the configured range 200 to 299 contains), assigns \<^verbatim>\<open>Content-Length\<close>
  again and writes its body. After the commit \<^verbatim>\<open>Header()\<close> hands out the real
  writer's own collection, so the second assignment lands there: the status was written
  without the header, and the real writer's headers hold it when the request completes.
\<close>

theorem Content_Length_set_after_commit:
  "headersSent (handle (late_length ()) (wrap (test_middleware [foo_bar] late_length) recorder)) \<and>
   code (handle (late_length ()) (wrap (test_middleware [foo_bar] late_length) recorder)) = 200 \<and>
   Contains (status foo_bar) 200 \<and>
   status_header ''Content-Length''
     (sink_log (ServeHTTP literal_ReplaceAll (test_middleware [foo_bar] late_length) recorder ()))
     = [(200, None)] \<and>
   sink_header (ServeHTTP literal_ReplaceAll (test_middleware [foo_bar] late_length) recorder ())
     ''Content-Length'' = Some [''3'']"
  by (simp add: run_defs late_length_def)

text \<open>
  C10, as amended. At every commit of a status outside 100 to 199, \<^verbatim>\<open>WriteHeader\<close>
  of \<^verbatim>\<open>main.go\<close> deletes \<^verbatim>\<open>Content-Length\<close> from the real writer's headers:
  the configured responses play no part in it. So in every request, whatever the
  configuration and the encoding of the body, every final status the real writer
  receives is written without \<^verbatim>\<open>Content-Length\<close>; and when the handler's run has
  sent the headers, there is exactly one such status. An informational status write,
  for its part, copies a \<^verbatim>\<open>Content-Length\<close> the handler has set onto the real
  writer and does not delete it.
\<close>

theorem Content_Length_deleted_at_commit:
  "(\<not> headersSent w \<and> \<not> (100 \<le> c \<and> c \<le> 199) \<longrightarrow>
      sink_header (ResponseWriter (WriteHeader c w)) ''Content-Length'' = None \<and>
      sink_log (ResponseWriter (WriteHeader c w)) =
        sink_log (ResponseWriter w) @
        [StatusWritten c (sink_header (ResponseWriter (WriteHeader c w)))]) \<and>
   (\<forall>x\<in>set (final_statuses (events_since rw (ServeHTTP RA r rw req))).
       snd x ''Content-Length'' = None) \<and>
   (headersSent (handle (nextHandler r req) (wrap r rw)) \<longrightarrow>
      (\<exists>h. final_statuses (events_since rw (ServeHTTP RA r rw req)) =
              [(code (handle (nextHandler r req) (wrap r rw)), h)] \<and>
           h ''Content-Length'' = None)) \<and>
   sink_header (ServeHTTP RA r rw req) =
     sink_header (ResponseWriter (handle (nextHandler r req) (wrap r rw))) \<and>
   (\<not> headersSent w \<and> 100 \<le> ci \<and> ci \<le> 199 \<and> headerMap w ''Content-Length'' = Some v \<longrightarrow>
      sink_header (ResponseWriter (WriteHeader ci w)) ''Content-Length'' = Some v)"
proof (intro conjI impI)
  assume a: "\<not> headersSent w \<and> \<not> (100 \<le> c \<and> c \<le> 199)"
  then have ns: "\<not> headersSent w" and nf: "\<not> (100 \<le> c \<and> c \<le> 199)"
    by simp_all
  note m = WriteHeader_final [OF ns nf]
  show "sink_header (ResponseWriter (WriteHeader c w)) ''Content-Length'' = None"
    by (simp add: m Del_absent)
  show "sink_log (ResponseWriter (WriteHeader c w)) =
        sink_log (ResponseWriter w) @
        [StatusWritten c (sink_header (ResponseWriter (WriteHeader c w)))]"
    by (simp add: m)
next
  assume a: "\<not> headersSent w \<and> 100 \<le> ci \<and> ci \<le> 199 \<and> headerMap w ''Content-Length'' = Some v"
  then have "WriteHeader ci w =
     w\<lparr>ResponseWriter := (ResponseWriter w)
          \<lparr>sink_header := sink_header (ResponseWriter w) ++ headerMap w,
           sink_log := sink_log (ResponseWriter w) @
             [StatusWritten ci (sink_header (ResponseWriter w) ++ headerMap w)]\<rparr>\<rparr>"
    by (simp add: WriteHeader_info)
  then show "sink_header (ResponseWriter (WriteHeader ci w)) ''Content-Length'' = Some v"
    using a by (simp add: map_add_def)
next
  show "\<forall>x\<in>set (final_statuses (events_since rw (ServeHTTP RA r rw req))).
       snd x ''Content-Length'' = None"
    using request_statuses [of "nextHandler r req" r rw]
    by (auto simp: ServeHTTP_final_statuses split: if_splits)
next
  assume "headersSent (handle (nextHandler r req) (wrap r rw))"
  then show "\<exists>h. final_statuses (events_since rw (ServeHTTP RA r rw req)) =
              [(code (handle (nextHandler r req) (wrap r rw)), h)] \<and>
           h ''Content-Length'' = None"
    using request_statuses [of "nextHandler r req" r rw]
    by (simp add: ServeHTTP_final_statuses)
next
  show "sink_header (ServeHTTP RA r rw req) =
        sink_header (ResponseWriter (handle (nextHandler r req) (wrap r rw)))"
    by (rule ServeHTTP_header)
qed

theorem Content_Length_deleted_at_commit_witness:
  "\<not> headersSent pending \<and> \<not> (100 \<le> (404::int) \<and> (404::int) \<le> 199) \<and>
   \<not> Contains (status foo_bar) 404 \<and>
   headerMap pending ''Content-Length'' = Some [''18''] \<and>
   sink_header (ResponseWriter (WriteHeader 404 pending)) ''Content-Length'' = None \<and>
   Get (Header (handle (gzip_next ()) (wrap (test_middleware [foo_bar] gzip_next) recorder)))
     ''Content-Encoding'' = ''gzip'' \<and>
   headersSent (handle (gzip_next ()) (wrap (test_middleware [foo_bar] gzip_next) recorder)) \<and>
   (\<exists>h. final_statuses (events_since recorder
            (ServeHTTP literal_ReplaceAll (test_middleware [foo_bar] gzip_next) recorder ()))
          = [(200, h)] \<and> h ''Content-Length'' = None) \<and>
   100 \<le> (103::int) \<and> (103::int) \<le> 199 \<and>
   sink_header (ResponseWriter (WriteHeader 103 pending)) ''Content-Length'' = Some [''18'']"
proof -
  note T = Content_Length_deleted_at_commit [of pending 404 recorder literal_ReplaceAll
      "test_middleware [foo_bar] gzip_next" "()" 103 "[''18'']"]
  have h3: "\<not> headersSent pending \<and> 100 \<le> (103::int) \<and> (103::int) \<le> 199 \<and>
            headerMap pending ''Content-Length'' = Some [''18'']"
    by (simp add: pending_unsent pending_headers)
  note i = T [THEN conjunct2, THEN conjunct2, THEN conjunct2, THEN conjunct2, THEN mp, OF h3]
  have h1: "\<not> headersSent pending \<and> \<not> (100 \<le> (404::int) \<and> (404::int) \<le> 199)"
    by (simp add: pending_unsent)
  have sent: "headersSent (handle (gzip_next ()) (wrap (test_middleware [foo_bar] gzip_next) recorder))"
    by (simp add: run_defs)
  have cd: "code (handle (gzip_next ()) (wrap (test_middleware [foo_bar] gzip_next) recorder)) = 200"
    by (simp add: run_defs)
  have ce: "Get (Header (handle (gzip_next ()) (wrap (test_middleware [foo_bar] gzip_next) recorder)))
     ''Content-Encoding'' = ''gzip''"
    by (simp add: run_defs)
  have h2: "headersSent (handle (nextHandler (test_middleware [foo_bar] gzip_next) ())
               (wrap (test_middleware [foo_bar] gzip_next) recorder))"
    using sent by (simp add: test_middleware_def)
  note a = T [THEN conjunct1, THEN mp, OF h1, THEN conjunct1]
  note b = T [THEN conjunct2, THEN conjunct2, THEN conjunct1, THEN mp, OF h2]
  have b': "\<exists>h. final_statuses (events_since recorder
            (ServeHTTP literal_ReplaceAll (test_middleware [foo_bar] gzip_next) recorder ()))
          = [(200, h)] \<and> h ''Content-Length'' = None"
    using b cd by (simp add: test_middleware_def)
  have nm: "\<not> Contains (status foo_bar) 404" by (simp add: foo_bar_def)
  show ?thesis
    using h1 nm pending_headers(1) a ce sent b' i
    by (intro conjI) simp_all
qed

text \<open>
  C10, as stated, fails: a handler that sets \<^verbatim>\<open>Content-Length\<close>, writes the
  informational status 103 and returns. The informational write copies the header to
  the real writer and nothing deletes it: the request ends with the header on the real
  writer, the only status written carried it, and the final body write finds it there.
\<close>

theorem Content_Length_kept_without_commit:
  "sink_header (ServeHTTP literal_ReplaceAll (test_middleware [foo_bar] early_hints_only) recorder ())
     ''Content-Length'' = Some [''5''] \<and>
   status_header ''Content-Length''
     (sink_log (ServeHTTP literal_ReplaceAll (test_middleware [foo_bar] early_hints_only) recorder ()))
     = [(103, Some [''5''])] \<and>
   final_statuses
     (sink_log (ServeHTTP literal_ReplaceAll (test_middleware [foo_bar] early_hints_only) recorder ()))
     = [] \<and>
   length (sink_log (ServeHTTP literal_ReplaceAll (test_middleware [foo_bar] early_hints_only) recorder ())) = 2 \<and>
   bodies (sink_log (ServeHTTP literal_ReplaceAll (test_middleware [foo_bar] early_hints_only) recorder ()))
     = []"
  by (simp add: run_defs)

section \<open>The status is written once\<close>

text \<open>
  C7. Once the headers are sent, which every status outside 100 to 199 brings about,
  \<^verbatim>\<open>WriteHeader\<close> with any code returns the writer as it is: the captured code,
  the real writer's headers and its log are unchanged, also after any number of
  further calls. So in a whole request the real writer receives at most one status
  outside 100 to 199.
\<close>

theorem WriteHeader_one_shot:
  "(headersSent w \<longrightarrow> WriteHeader c w = w) \<and>
   (\<not> (100 \<le> c0 \<and> c0 \<le> 199) \<longrightarrow>
      headersSent (WriteHeader c0 w) \<and> WriteHeader c (WriteHeader c0 w) = WriteHeader c0 w) \<and>
   (headersSent w \<longrightarrow> handle (map CallWriteHeader cs) w = w) \<and>
   length (final_statuses (events_since rw (ServeHTTP RA r rw req))) \<le> 1"
proof (intro conjI impI)
  assume "headersSent w"
  then show "WriteHeader c w = w" by (rule WriteHeader_sent)
next
  assume nf: "\<not> (100 \<le> c0 \<and> c0 \<le> 199)"
  show "headersSent (WriteHeader c0 w)"
    using nf by (cases "headersSent w") (simp_all add: WriteHeader_sent WriteHeader_final)
  then show "WriteHeader c (WriteHeader c0 w) = WriteHeader c0 w"
    by (rule WriteHeader_sent)
next
  assume "headersSent w"
  then show "handle (map CallWriteHeader cs) w = w"
    by (induction cs) (simp_all add: WriteHeader_sent)
next
  show "length (final_statuses (events_since rw (ServeHTTP RA r rw req))) \<le> 1"
    using request_statuses [of "nextHandler r req" r rw]
    by (auto simp: ServeHTTP_final_statuses split: if_splits)
qed

theorem WriteHeader_one_shot_witness:
  "headersSent (WriteHeader 200 pending) \<and>
   WriteHeader 404 (WriteHeader 200 pending) = WriteHeader 200 pending \<and>
   \<not> (100 \<le> (200::int) \<and> (200::int) \<le> 199) \<and>
   handle (map CallWriteHeader [500, 103]) (WriteHeader 200 pending) = WriteHeader 200 pending \<and>
   code (handle (map CallWriteHeader [500, 103]) (WriteHeader 200 pending)) = 200 \<and>
   length (final_statuses (events_since recorder
      (ServeHTTP literal_ReplaceAll (test_middleware [foo_bar] plain_next) recorder ()))) \<le> 1"
proof -
  note T = WriteHeader_one_shot [of "WriteHeader 200 pending" 404 200 "[500, 103]" recorder
      literal_ReplaceAll "test_middleware [foo_bar] plain_next" "()"]
  note U = WriteHeader_one_shot [of pending 404 200 "[500, 103]" recorder
      literal_ReplaceAll "test_middleware [foo_bar] plain_next" "()"]
  have nf: "\<not> (100 \<le> (200::int) \<and> (200::int) \<le> 199)" by simp
  note a = U [THEN conjunct2, THEN conjunct1, THEN mp, OF nf]
  note b = T [THEN conjunct2, THEN conjunct2, THEN conjunct1, THEN mp, OF pending_commit(1)]
  note c = T [THEN conjunct2, THEN conjunct2, THEN conjunct2]
  have cd: "code (WriteHeader 200 pending) = 200" by (simp add: run_defs)
  show ?thesis
    using a nf b c cd by (intro conjI) simp_all
qed

section \<open>A body written before any status\<close>

lemma write_only_run:
  "bodies (sink_log (ServeHTTP literal_ReplaceAll (test_middleware [foo_bar] write_only) recorder ()))
     = ''bar is the new bar''"
  "status_header ''Content-Length''
     (sink_log (ServeHTTP literal_ReplaceAll (test_middleware [foo_bar] write_only) recorder ()))
     = [(200, None)]"
  by (simp_all add: run_defs)

text \<open>
  C8. \<^verbatim>\<open>Write\<close> on a writer whose headers are not sent is \<^verbatim>\<open>WriteHeader(200)\<close>
  followed by the append to the buffer: the private headers are assigned on the real
  writer (so each private key other than \<^verbatim>\<open>Content-Length\<close> is there with its
  private values), status 200 is written to the real writer and captured, the headers
  count as sent, and the bytes go to the buffer. When the handler makes no status call
  at all, the code that \<^verbatim>\<open>ServeHTTP\<close> matches the responses with is 200.
\<close>

theorem Write_commits_200:
  "(\<not> headersSent w \<longrightarrow>
      Write p w = (WriteHeader 200 w)\<lparr>buffer := buffer w @ p\<rparr> \<and>
      headersSent (Write p w) \<and> code (Write p w) = 200 \<and>
      buffer (Write p w) = buffer w @ p \<and>
      sink_header (ResponseWriter (Write p w)) =
        Del ''Content-Length'' (sink_header (ResponseWriter w) ++ headerMap w) \<and>
      sink_log (ResponseWriter (Write p w)) =
        sink_log (ResponseWriter w) @
        [StatusWritten 200 (Del ''Content-Length'' (sink_header (ResponseWriter w) ++ headerMap w))] \<and>
      (\<forall>k\<in>dom (headerMap w). k \<noteq> ''Content-Length'' \<longrightarrow>
          sink_header (ResponseWriter (Write p w)) k = headerMap w k)) \<and>
   ((\<forall>c\<in>set (nextHandler r req). \<not> is_status_call c) \<longrightarrow>
      code (handle (nextHandler r req) (wrap r rw)) = 200 \<and>
      ServeHTTP RA r rw req =
        sink_Write
          (if Get (Header (handle (nextHandler r req) (wrap r rw))) ''Content-Encoding'' \<noteq> [] \<and>
              Get (Header (handle (nextHandler r req) (wrap r rw))) ''Content-Encoding'' \<noteq> ''identity''
           then written (nextHandler r req)
           else rewrite_body RA (responses r) 200 (written (nextHandler r req)))
          (ResponseWriter (handle (nextHandler r req) (wrap r rw))))"
proof (intro conjI impI)
  assume ns: "\<not> headersSent w"
  have nf: "\<not> (100 \<le> (200::int) \<and> (200::int) \<le> 199)" by simp
  note m = WriteHeader_final [OF ns nf]
  show eq: "Write p w = (WriteHeader 200 w)\<lparr>buffer := buffer w @ p\<rparr>"
    using ns by (simp add: Write_def buffer_WriteHeader)
  show "headersSent (Write p w)" by (simp add: eq m)
  show "code (Write p w) = 200" by (simp add: eq m)
  show "buffer (Write p w) = buffer w @ p" by (simp add: eq)
  show "sink_header (ResponseWriter (Write p w)) =
        Del ''Content-Length'' (sink_header (ResponseWriter w) ++ headerMap w)"
    by (simp add: eq m)
  show "sink_log (ResponseWriter (Write p w)) =
        sink_log (ResponseWriter w) @
        [StatusWritten 200 (Del ''Content-Length'' (sink_header (ResponseWriter w) ++ headerMap w))]"
    by (simp add: eq m)
  show "\<forall>k\<in>dom (headerMap w). k \<noteq> ''Content-Length'' \<longrightarrow>
          sink_header (ResponseWriter (Write p w)) k = headerMap w k"
    by (auto simp: eq m Del_def map_add_def)
next
  assume a: "\<forall>c\<in>set (nextHandler r req). \<not> is_status_call c"
  show cd: "code (handle (nextHandler r req) (wrap r rw)) = 200"
    using code_no_status [OF a, of "wrap r rw"] by (simp add: wrap_def)
  show "ServeHTTP RA r rw req =
        sink_Write
          (if Get (Header (handle (nextHandler r req) (wrap r rw))) ''Content-Encoding'' \<noteq> [] \<and>
              Get (Header (handle (nextHandler r req) (wrap r rw))) ''Content-Encoding'' \<noteq> ''identity''
           then written (nextHandler r req)
           else rewrite_body RA (responses r) 200 (written (nextHandler r req)))
          (ResponseWriter (handle (nextHandler r req) (wrap r rw)))"
    by (simp add: ServeHTTP_unfold cd rewrite_body_rewritten)
qed

theorem Write_commits_200_witness:
  "\<not> headersSent pending \<and>
   headersSent (Write ''foo'' pending) \<and> code (Write ''foo'' pending) = 200 \<and>
   buffer (Write ''foo'' pending) = ''foo'' \<and>
   ''Last-Modified'' \<in> dom (headerMap pending) \<and>
   sink_header (ResponseWriter (Write ''foo'' pending)) ''Last-Modified''
     = Some [''Thu, 02 Jun 2016 06:01:08 GMT''] \<and>
   list_all (\<lambda>c. \<not> is_status_call c) (write_only ()) \<and>
   code (handle (write_only ()) (wrap (test_middleware [foo_bar] write_only) recorder)) = 200 \<and>
   bodies (sink_log (ServeHTTP literal_ReplaceAll (test_middleware [foo_bar] write_only) recorder ()))
     = ''bar is the new bar''"
proof -
  note T = Write_commits_200 [of pending "''foo''" "test_middleware [foo_bar] write_only" "()"
      recorder literal_ReplaceAll]
  note a = T [THEN conjunct1, THEN mp, OF pending_unsent]
  have lm: "''Last-Modified'' \<in> dom (headerMap pending)"
    by (simp add: pending_headers)
  have lmv: "headerMap pending ''Last-Modified'' = Some [''Thu, 02 Jun 2016 06:01:08 GMT'']"
    by (simp add: run_defs)
  have ne: "''Last-Modified'' \<noteq> ''Content-Length''" by simp
  note a6 = a [THEN conjunct2, THEN conjunct2, THEN conjunct2, THEN conjunct2, THEN conjunct2,
      THEN conjunct2]
  have hv: "sink_header (ResponseWriter (Write ''foo'' pending)) ''Last-Modified''
     = Some [''Thu, 02 Jun 2016 06:01:08 GMT'']"
    using bspec [OF a6 lm, THEN mp, OF ne] lmv by simp
  have bf: "buffer pending = []" by (simp add: run_defs)
  have ns: "list_all (\<lambda>c. \<not> is_status_call c) (write_only ())"
    by (simp add: write_only_def)
  have h2: "\<forall>c\<in>set (nextHandler (test_middleware [foo_bar] write_only) ()). \<not> is_status_call c"
    using ns by (simp add: test_middleware_def list_all_iff)
  note b = T [THEN conjunct2, THEN mp, OF h2, THEN conjunct1]
  have b': "code (handle (write_only ()) (wrap (test_middleware [foo_bar] write_only) recorder)) = 200"
    using b by (simp add: test_middleware_def)
  show ?thesis
    using pending_unsent a [THEN conjunct2, THEN conjunct1]
      a [THEN conjunct2, THEN conjunct2, THEN conjunct1]
      a [THEN conjunct2, THEN conjunct2, THEN conjunct2, THEN conjunct1] bf
      lm hv ns b' write_only_run(1)
    by (intro conjI) simp_all
qed

section \<open>The body \<^verbatim>\<open>ServeHTTP\<close> writes\<close>

lemma rewritten_first:
  "rs = pre @ m # post \<Longrightarrow> \<forall>p\<in>set pre. \<not> Contains (status p) c \<Longrightarrow> Contains (status m) c \<Longrightarrow>
   rewritten RA rs c body = chain RA (rewriteRules m) body"
  using rewrite_body_first [of pre c m RA post body]
  by (simp add: rewrite_body_rewritten apply_rewrites_chain)

lemma rewritten_none:
  "\<forall>p\<in>set rs. \<not> Contains (status p) c \<Longrightarrow> rewritten RA rs c body = body"
  using rewrite_body_none [of rs c RA body] by (simp add: rewrite_body_rewritten)

lemma plain_two_rules:
  "Get (Header (handle (plain_next ()) (wrap (test_middleware [foo_bar, foo_bar_foo] plain_next) recorder)))
     ''Content-Encoding'' = []"
  "code (handle (plain_next ()) (wrap (test_middleware [foo_bar, foo_bar_foo] plain_next) recorder)) = 200"
  "buffer (handle (plain_next ()) (wrap (test_middleware [foo_bar, foo_bar_foo] plain_next) recorder))
     = ''foo is the new bar''"
  "chain literal_ReplaceAll (rewriteRules foo_bar) ''foo is the new bar'' = ''bar is the new bar''"
  by (simp_all add: run_defs)

lemma not_found_run:
  "Get (Header (handle (not_found_next ()) (wrap (test_middleware [foo_bar] not_found_next) recorder)))
     ''Content-Encoding'' = []"
  "code (handle (not_found_next ()) (wrap (test_middleware [foo_bar] not_found_next) recorder)) = 404"
  "buffer (handle (not_found_next ()) (wrap (test_middleware [foo_bar] not_found_next) recorder))
     = ''foo is the new bar''"
  by (simp_all add: run_defs)

lemma Get_cases:
  "Get h k \<noteq> [] \<Longrightarrow> \<exists>vs. h k = Some (Get h k # vs)"
  by (auto simp: Get_def split: option.splits list.splits)

lemma encoding_runs:
  "Get (Header (handle (gzip_next ()) (wrap (test_middleware [foo_bar] gzip_next) recorder)))
     ''Content-Encoding'' = ''gzip''"
  "Get (Header (handle (identity_next ()) (wrap (test_middleware [foo_bar] identity_next) recorder)))
     ''Content-Encoding'' = ''identity''"
  "Header (handle (write_only ()) (wrap (test_middleware [foo_bar] write_only) recorder))
     ''Content-Encoding'' = None"
  "code (handle (gzip_next ()) (wrap (test_middleware [foo_bar] gzip_next) recorder)) = 200"
  "bodies (sink_log (ResponseWriter
      (handle (gzip_next ()) (wrap (test_middleware [foo_bar] gzip_next) recorder)))) = []"
  "written (gzip_next ()) = ''foo is the new bar''"
  "bodies (sink_log (sink_Write (rewrite_body literal_ReplaceAll [foo_bar]
       (code (handle (identity_next ()) (wrap (test_middleware [foo_bar] identity_next) recorder)))
       (buffer (handle (identity_next ()) (wrap (test_middleware [foo_bar] identity_next) recorder))))
     (ResponseWriter (handle (identity_next ()) (wrap (test_middleware [foo_bar] identity_next) recorder)))))
     = ''bar is the new bar''"
  by (simp_all add: run_defs)

text \<open>
  C1. When the \<^verbatim>\<open>Content-Encoding\<close> that \<^verbatim>\<open>ServeHTTP\<close> reads after the
  handler is empty (which includes absent) or \<^verbatim>\<open>identity\<close>, the one body write the
  real writer then receives is the buffered body, which is what the handler wrote,
  transformed by the rules of the first configured response whose status contains the
  captured code: whatever responses follow it, containing the code or not, play no
  part. When no response contains the code, the body written is the buffered body.
\<close>

theorem ServeHTTP_first_match:
  "let W = handle (nextHandler r req) (wrap r rw) in
   (Get (Header W) ''Content-Encoding'' = [] \<or> Get (Header W) ''Content-Encoding'' = ''identity'' \<longrightarrow>
      sink_log (ServeHTTP RA r rw req) =
        sink_log (ResponseWriter W) @
        [BodyWritten (rewritten RA (responses r) (code W) (buffer W))] \<and>
      bodies (events_since rw (ServeHTTP RA r rw req)) =
        rewritten RA (responses r) (code W) (buffer W) \<and>
      buffer W = written (nextHandler r req) \<and>
      (\<forall>pre m post.
          responses r = pre @ m # post \<and>
          (\<forall>p\<in>set pre. \<not> Contains (status p) (code W)) \<and> Contains (status m) (code W) \<longrightarrow>
          rewritten RA (responses r) (code W) (buffer W) =
            chain RA (rewriteRules m) (buffer W)) \<and>
      ((\<forall>p\<in>set (responses r). \<not> Contains (status p) (code W)) \<longrightarrow>
          rewritten RA (responses r) (code W) (buffer W) = buffer W))"
proof -
  let ?W = "handle (nextHandler r req) (wrap r rw)"
  have buf: "buffer ?W = written (nextHandler r req)"
    using buffer_handle [of "nextHandler r req" "wrap r rw"] by (simp add: wrap_def)
  have log: "Get (Header ?W) ''Content-Encoding'' = [] \<or>
             Get (Header ?W) ''Content-Encoding'' = ''identity'' \<Longrightarrow>
     sink_log (ServeHTTP RA r rw req) =
        sink_log (ResponseWriter ?W) @ [BodyWritten (rewritten RA (responses r) (code ?W) (buffer ?W))]"
    by (auto simp: ServeHTTP_unfold sink_Write_def buf)
  have bod: "Get (Header ?W) ''Content-Encoding'' = [] \<or>
             Get (Header ?W) ''Content-Encoding'' = ''identity'' \<Longrightarrow>
     bodies (events_since rw (ServeHTTP RA r rw req)) =
        rewritten RA (responses r) (code ?W) (buffer ?W)"
    by (auto simp: ServeHTTP_bodies buf)
  have first: "\<forall>pre m post.
          responses r = pre @ m # post \<and>
          (\<forall>p\<in>set pre. \<not> Contains (status p) (code ?W)) \<and> Contains (status m) (code ?W) \<longrightarrow>
          rewritten RA (responses r) (code ?W) (buffer ?W) =
            chain RA (rewriteRules m) (buffer ?W)"
    using rewritten_first by blast
  have none: "(\<forall>p\<in>set (responses r). \<not> Contains (status p) (code ?W)) \<longrightarrow>
          rewritten RA (responses r) (code ?W) (buffer ?W) = buffer ?W"
    using rewritten_none by blast
  show ?thesis
    unfolding Let_def using log bod buf first none by blast
qed

theorem ServeHTTP_first_match_witness:
  "Get (Header (handle (plain_next ()) (wrap (test_middleware [foo_bar, foo_bar_foo] plain_next) recorder)))
     ''Content-Encoding'' = [] \<and>
   Contains (status foo_bar) 200 \<and> Contains (status foo_bar_foo) 200 \<and>
   bodies (sink_log (ServeHTTP literal_ReplaceAll
      (test_middleware [foo_bar, foo_bar_foo] plain_next) recorder ())) = ''bar is the new bar'' \<and>
   Get (Header (handle (not_found_next ()) (wrap (test_middleware [foo_bar] not_found_next) recorder)))
     ''Content-Encoding'' = [] \<and>
   \<not> Contains (status foo_bar) 404 \<and>
   bodies (sink_log (ServeHTTP literal_ReplaceAll
      (test_middleware [foo_bar] not_found_next) recorder ())) = ''foo is the new bar''"
proof -
  let ?r = "test_middleware [foo_bar, foo_bar_foo] plain_next"
  let ?W = "handle (plain_next ()) (wrap ?r recorder)"
  let ?q = "test_middleware [foo_bar] not_found_next"
  let ?V = "handle (not_found_next ()) (wrap ?q recorder)"
  note T = ServeHTTP_first_match [of ?r "()" recorder literal_ReplaceAll, unfolded Let_def]
  note U = ServeHTTP_first_match [of ?q "()" recorder literal_ReplaceAll, unfolded Let_def]
  have nr: "nextHandler ?r () = plain_next ()" "responses ?r = [foo_bar, foo_bar_foo]"
    "nextHandler ?q () = not_found_next ()" "responses ?q = [foo_bar]"
    by (simp_all add: test_middleware_def)
  have c1: "Contains (status foo_bar) 200" and c2: "Contains (status foo_bar_foo) 200"
    and c3: "\<not> Contains (status foo_bar) 404"
    by (simp_all add: foo_bar_def foo_bar_foo_def)
  have h1: "Get (Header ?W) ''Content-Encoding'' = [] \<or> Get (Header ?W) ''Content-Encoding'' = ''identity''"
    by (simp add: plain_two_rules)
  have h2: "Get (Header ?V) ''Content-Encoding'' = [] \<or> Get (Header ?V) ''Content-Encoding'' = ''identity''"
    by (simp add: not_found_run)
  note a = T [unfolded nr, THEN mp, OF h1]
  note b = U [unfolded nr, THEN mp, OF h2]
  have dec: "[foo_bar, foo_bar_foo] = [] @ foo_bar # [foo_bar_foo] \<and>
          (\<forall>p\<in>set []. \<not> Contains (status p) (code ?W)) \<and> Contains (status foo_bar) (code ?W)"
    using c1 by (simp add: plain_two_rules)
  have r1: "rewritten literal_ReplaceAll [foo_bar, foo_bar_foo] (code ?W) (buffer ?W) = ''bar is the new bar''"
    using a [THEN conjunct2, THEN conjunct2, THEN conjunct2, THEN conjunct1, rule_format, OF dec]
    by (simp add: plain_two_rules)
  have nm: "\<forall>p\<in>set [foo_bar]. \<not> Contains (status p) (code ?V)"
    using c3 by (simp add: not_found_run)
  have r2: "rewritten literal_ReplaceAll [foo_bar] (code ?V) (buffer ?V) = ''foo is the new bar''"
    using b [THEN conjunct2, THEN conjunct2, THEN conjunct2, THEN conjunct2, THEN mp, OF nm]
    by (simp add: not_found_run)
  have l1: "bodies (sink_log (ServeHTTP literal_ReplaceAll ?r recorder ())) = ''bar is the new bar''"
    using a [THEN conjunct1] r1 by (simp add: bodies_append) (simp add: run_defs)
  have l2: "bodies (sink_log (ServeHTTP literal_ReplaceAll ?q recorder ())) = ''foo is the new bar''"
    using b [THEN conjunct1] r2 by (simp add: bodies_append) (simp add: run_defs)
  show ?thesis
    using plain_two_rules(1) c1 c2 l1 not_found_run(1) c3 l2
    by (intro conjI)
qed

text \<open>
  C2. When the \<^verbatim>\<open>Content-Encoding\<close> read after the handler is neither empty nor
  \<^verbatim>\<open>identity\<close> (it is then present, as the first value of the header),
  \<^verbatim>\<open>ServeHTTP\<close> writes the buffered body as it is, whatever the configured
  responses and the status. When it is \<^verbatim>\<open>identity\<close> or empty, as it is when the
  header is absent, the body goes through the rewriting loop.
\<close>

theorem ServeHTTP_content_encoding:
  "let W = handle (nextHandler r req) (wrap r rw);
       contentEncoding = Get (Header W) ''Content-Encoding'' in
   (contentEncoding \<noteq> [] \<and> contentEncoding \<noteq> ''identity'' \<longrightarrow>
      ServeHTTP RA r rw req = sink_Write (buffer W) (ResponseWriter W) \<and>
      sink_log (ServeHTTP RA r rw req) =
        sink_log (ResponseWriter W) @ [BodyWritten (written (nextHandler r req))] \<and>
      bodies (events_since rw (ServeHTTP RA r rw req)) = written (nextHandler r req)) \<and>
   (contentEncoding = [] \<or> contentEncoding = ''identity'' \<longrightarrow>
      ServeHTTP RA r rw req =
        sink_Write (rewrite_body RA (responses r) (code W) (buffer W)) (ResponseWriter W)) \<and>
   (Header W ''Content-Encoding'' = None \<longrightarrow> contentEncoding = []) \<and>
   (contentEncoding \<noteq> [] \<longrightarrow> (\<exists>vs. Header W ''Content-Encoding'' = Some (contentEncoding # vs)))"
proof -
  let ?W = "handle (nextHandler r req) (wrap r rw)"
  have buf: "buffer ?W = written (nextHandler r req)"
    using buffer_handle [of "nextHandler r req" "wrap r rw"] by (simp add: wrap_def)
  have enc_bodies: "Get (Header ?W) ''Content-Encoding'' \<noteq> [] \<and>
             Get (Header ?W) ''Content-Encoding'' \<noteq> ''identity'' \<longrightarrow>
      bodies (events_since rw (ServeHTTP RA r rw req)) = written (nextHandler r req)"
    by (simp add: ServeHTTP_bodies)
  have enc_log: "Get (Header ?W) ''Content-Encoding'' \<noteq> [] \<and>
             Get (Header ?W) ''Content-Encoding'' \<noteq> ''identity'' \<longrightarrow>
      ServeHTTP RA r rw req = sink_Write (buffer ?W) (ResponseWriter ?W) \<and>
      sink_log (ServeHTTP RA r rw req) =
        sink_log (ResponseWriter ?W) @ [BodyWritten (written (nextHandler r req))]"
    by (simp add: ServeHTTP_def Let_def buf sink_Write_def)
  have enc: "Get (Header ?W) ''Content-Encoding'' \<noteq> [] \<and>
             Get (Header ?W) ''Content-Encoding'' \<noteq> ''identity'' \<longrightarrow>
      ServeHTTP RA r rw req = sink_Write (buffer ?W) (ResponseWriter ?W) \<and>
      sink_log (ServeHTTP RA r rw req) =
        sink_log (ResponseWriter ?W) @ [BodyWritten (written (nextHandler r req))] \<and>
      bodies (events_since rw (ServeHTTP RA r rw req)) = written (nextHandler r req)"
    using enc_bodies enc_log by blast
  have idt: "Get (Header ?W) ''Content-Encoding'' = [] \<or>
             Get (Header ?W) ''Content-Encoding'' = ''identity'' \<longrightarrow>
      ServeHTTP RA r rw req =
        sink_Write (rewrite_body RA (responses r) (code ?W) (buffer ?W)) (ResponseWriter ?W)"
    by (auto simp: ServeHTTP_def Let_def)
  have abs: "Header ?W ''Content-Encoding'' = None \<longrightarrow> Get (Header ?W) ''Content-Encoding'' = []"
    by (simp add: Get_def)
  have pres: "Get (Header ?W) ''Content-Encoding'' \<noteq> [] \<longrightarrow>
     (\<exists>vs. Header ?W ''Content-Encoding'' = Some (Get (Header ?W) ''Content-Encoding'' # vs))"
    using Get_cases by blast
  show ?thesis
    unfolding Let_def using enc idt abs pres by (intro conjI)
qed

theorem ServeHTTP_content_encoding_witness:
  "Get (Header (handle (gzip_next ()) (wrap (test_middleware [foo_bar] gzip_next) recorder)))
     ''Content-Encoding'' = ''gzip'' \<and>
   Contains (status foo_bar)
     (code (handle (gzip_next ()) (wrap (test_middleware [foo_bar] gzip_next) recorder))) \<and>
   bodies (sink_log (ServeHTTP literal_ReplaceAll (test_middleware [foo_bar] gzip_next) recorder ()))
     = ''foo is the new bar'' \<and>
   Get (Header (handle (identity_next ()) (wrap (test_middleware [foo_bar] identity_next) recorder)))
     ''Content-Encoding'' = ''identity'' \<and>
   bodies (sink_log (ServeHTTP literal_ReplaceAll (test_middleware [foo_bar] identity_next) recorder ()))
     = ''bar is the new bar'' \<and>
   Header (handle (write_only ()) (wrap (test_middleware [foo_bar] write_only) recorder))
     ''Content-Encoding'' = None \<and>
   Get (Header (handle (write_only ()) (wrap (test_middleware [foo_bar] write_only) recorder)))
     ''Content-Encoding'' = []"
proof -
  let ?g = "test_middleware [foo_bar] gzip_next"
  let ?G = "handle (gzip_next ()) (wrap ?g recorder)"
  let ?i = "test_middleware [foo_bar] identity_next"
  let ?I = "handle (identity_next ()) (wrap ?i recorder)"
  let ?w = "test_middleware [foo_bar] write_only"
  let ?W = "handle (write_only ()) (wrap ?w recorder)"
  have nr: "nextHandler ?g () = gzip_next ()" "responses ?g = [foo_bar]"
    "nextHandler ?i () = identity_next ()" "responses ?i = [foo_bar]"
    "nextHandler ?w () = write_only ()" "responses ?w = [foo_bar]"
    by (simp_all add: test_middleware_def)
  note T = ServeHTTP_content_encoding [of ?g "()" recorder literal_ReplaceAll, unfolded Let_def nr]
  note U = ServeHTTP_content_encoding [of ?i "()" recorder literal_ReplaceAll, unfolded Let_def nr]
  note V = ServeHTTP_content_encoding [of ?w "()" recorder literal_ReplaceAll, unfolded Let_def nr]
  have h1: "Get (Header ?G) ''Content-Encoding'' \<noteq> [] \<and>
            Get (Header ?G) ''Content-Encoding'' \<noteq> ''identity''"
    by (simp add: encoding_runs)
  have h2: "Get (Header ?I) ''Content-Encoding'' = [] \<or>
            Get (Header ?I) ''Content-Encoding'' = ''identity''"
    by (simp add: encoding_runs)
  have "Contains (status foo_bar) 200"
    by (simp add: foo_bar_def)
  then have m: "Contains (status foo_bar) (code ?G)"
    by (simp only: encoding_runs(4))
  note a = T [THEN conjunct1, THEN mp, OF h1, THEN conjunct2, THEN conjunct1]
  note b = U [THEN conjunct2, THEN conjunct1, THEN mp, OF h2]
  note c = V [THEN conjunct2, THEN conjunct2, THEN conjunct1, THEN mp, OF encoding_runs(3)]
  have l1: "bodies (sink_log (ServeHTTP literal_ReplaceAll ?g recorder ())) = ''foo is the new bar''"
    by (simp only: a bodies_append encoding_runs bodies.simps append_Nil append_Nil2)
  have l2: "bodies (sink_log (ServeHTTP literal_ReplaceAll ?i recorder ())) = ''bar is the new bar''"
    by (simp only: b encoding_runs)
  show ?thesis
    using encoding_runs(1) m l1 encoding_runs(2) l2 encoding_runs(3) c
    by (intro conjI)
qed

text \<open>
  C3. The rules of the matching response are applied one after the other in the
  configured order, each to the output of the one before: the loop over a list of
  rules followed by another is the loop over the second applied to the result of the
  loop over the first. With \<^verbatim>\<open>foo\<close> to \<^verbatim>\<open>bar\<close> and then \<^verbatim>\<open>bar\<close> to
  \<^verbatim>\<open>foo\<close>, the body \<^verbatim>\<open>foo is the new bar\<close> becomes
  \<^verbatim>\<open>bar is the new bar\<close> and then \<^verbatim>\<open>foo is the new foo\<close>: the second rule
  rewrites what the first produced.
\<close>

theorem rewrites_chained_in_order:
  "apply_rewrites RA (rs1 @ rs2) body = apply_rewrites RA rs2 (apply_rewrites RA rs1 body) \<and>
   apply_rewrites RA [rule1, rule2] body =
     RA (regex rule2) (RA (regex rule1) body (replacement rule1)) (replacement rule2) \<and>
   apply_rewrites RA rules body = chain RA rules body \<and>
   literal_ReplaceAll ''foo'' ''foo is the new bar'' ''bar'' = ''bar is the new bar'' \<and>
   literal_ReplaceAll ''bar'' ''bar is the new bar'' ''foo'' = ''foo is the new foo'' \<and>
   rewrite_body literal_ReplaceAll [foo_bar_foo] 200 ''foo is the new bar'' = ''foo is the new foo'' \<and>
   bodies (sink_log (ServeHTTP literal_ReplaceAll (test_middleware [foo_bar_foo] plain_next) recorder ()))
     = ''foo is the new foo''"
proof (intro conjI)
  show "apply_rewrites RA (rs1 @ rs2) body = apply_rewrites RA rs2 (apply_rewrites RA rs1 body)"
    by (rule apply_rewrites_append)
  show "apply_rewrites RA [rule1, rule2] body =
     RA (regex rule2) (RA (regex rule1) body (replacement rule1)) (replacement rule2)"
    by simp
  show "apply_rewrites RA rules body = chain RA rules body"
    by (rule apply_rewrites_chain)
  show "literal_ReplaceAll ''foo'' ''foo is the new bar'' ''bar'' = ''bar is the new bar''"
    by (simp add: literal_ReplaceAll_def)
  show "literal_ReplaceAll ''bar'' ''bar is the new bar'' ''foo'' = ''foo is the new foo''"
    by (simp add: literal_ReplaceAll_def)
  show "rewrite_body literal_ReplaceAll [foo_bar_foo] 200 ''foo is the new bar'' = ''foo is the new foo''"
    by (simp add: foo_bar_foo_def literal_ReplaceAll_def)
  show "bodies (sink_log (ServeHTTP literal_ReplaceAll (test_middleware [foo_bar_foo] plain_next) recorder ()))
     = ''foo is the new foo''"
    by (simp add: run_defs)
qed

section \<open>The repository's tests, on the model\<close>

text \<open>
  The cases of \<^verbatim>\<open>main_test.go\<close>, evaluated on the model: the ranges and the
  containment tests (which the model of the absent file has to meet), the bodies and
  headers of \<^verbatim>\<open>TestServeHTTP\<close>, and the results of \<^verbatim>\<open>TestNew\<close>.
\<close>

lemma TestNewHTTPCodeRanges_cases:
  "NewHTTPCodeRanges strict [''200''] = Inr [(200, 200)]"
  "NewHTTPCodeRanges strict [''200-299''] = Inr [(200, 299)]"
  "NewHTTPCodeRanges strict [''200-299'', ''400-499''] = Inr [(200, 299), (400, 499)]"
  "NewHTTPCodeRanges strict [''200-299'', ''400'', ''450-499''] =
     Inr [(200, 299), (400, 400), (450, 499)]"
  "isl (NewHTTPCodeRanges strict [''200-abc''])"
  "isl (NewHTTPCodeRanges strict [''abc-200''])"
  by (simp_all add: range_parsing)

lemma TestHTTPCodeRanges_Contains_cases:
  "Contains [(200, 299), (400, 499)] 200"
  "Contains [(200, 299), (400, 499)] 400"
  "Contains [(200, 299), (400, 499)] 499"
  "\<not> Contains [(200, 299), (400, 499)] 300"
  "\<not> Contains [(200, 299), (400, 499)] 100"
  "\<not> Contains [(200, 299), (400, 499)] 500"
  by simp_all

lemma TestServeHTTP_bodies:
  "bodies (sink_log (ServeHTTP literal_ReplaceAll (test_middleware [foo_bar] plain_next) recorder ()))
     = ''bar is the new bar''"
  "bodies (sink_log (ServeHTTP literal_ReplaceAll (test_middleware [foo_bar] not_found_next) recorder ()))
     = ''foo is the new bar''"
  "bodies (sink_log (ServeHTTP literal_ReplaceAll (test_middleware [foo_bar_foo] plain_next) recorder ()))
     = ''foo is the new foo''"
  "bodies (sink_log (ServeHTTP literal_ReplaceAll (test_middleware [foo_bar] gzip_next) recorder ()))
     = ''foo is the new bar''"
  "bodies (sink_log (ServeHTTP literal_ReplaceAll (test_middleware [foo_bar] identity_next) recorder ()))
     = ''bar is the new bar''"
  by (simp_all add: run_defs)

lemma TestServeHTTP_headers:
  "status_header ''Content-Length''
     (sink_log (ServeHTTP literal_ReplaceAll (test_middleware [foo_bar] plain_next) recorder ()))
     = [(200, None)]"
  "status_header ''Content-Length''
     (sink_log (ServeHTTP literal_ReplaceAll (test_middleware [foo_bar] not_found_next) recorder ()))
     = [(404, None)]"
  "status_header ''Content-Length''
     (sink_log (ServeHTTP literal_ReplaceAll (test_middleware [foo_bar] gzip_next) recorder ()))
     = [(200, None)]"
  "status_header ''Last-Modified''
     (sink_log (ServeHTTP literal_ReplaceAll (test_middleware [foo_bar] identity_next) recorder ()))
     = [(200, Some [''Thu, 02 Jun 2016 06:01:08 GMT''])]"
  by (simp_all add: run_defs)

lemma TestNew_cases:
  "New strict test_Compile nxt config_ok nm =
     (Some \<lparr>nextHandler = nxt, name = nm,
            responses = [\<lparr>rewriteRules = [\<lparr>regex = ''foo'', replacement = ''bar''\<rparr>,
                                          \<lparr>regex = ''bar'', replacement = ''foo''\<rparr>],
                          status = [(200, 299), (400, 400)]\<rparr>],
            lastModified = True\<rparr>, None)"
  "New strict test_Compile nxt config_bad_regex nm =
     (None, Some (RegexError ''*'' ''missing argument to repetition operator''))"
  "New strict test_Compile nxt config_bad_status nm = (None, Some (ParseError ''299foo''))"
  by (simp_all add: New_def config_ok_def config_bad_regex_def config_bad_status_def
      test_Compile_def range_parsing)

end
